theory Spec2Isabelle
  imports Main
begin

section \<open>Binance historical data downloader (merton/binance_downloader.py)\<close>

text \<open>
  The module has one class, \<^verbatim>\<open>BinanceDataDownloader\<close>, with a constructor and two
  methods: \<^verbatim>\<open>get_url\<close> (string formatting) and \<^verbatim>\<open>download_data\<close> (a loop over the
  calendar days of a range, one HTTP GET per day, followed by concatenation, column naming,
  re-indexing and a CSV write). The library calls the methods make
  (\<^verbatim>\<open>datetime.date\<close>, \<^verbatim>\<open>requests.get\<close>, \<^verbatim>\<open>zipfile.ZipFile\<close>, \<^verbatim>\<open>pandas\<close>, \<^verbatim>\<open>pathlib.Path\<close>)
  are not part of the repository. What the methods need of \<^verbatim>\<open>date\<close>, of
  \<^verbatim>\<open>pathlib\<close> (POSIX paths) and of the shape of a data frame is modelled here as
  CPython 3.11 on glibc and \<^verbatim>\<open>pandas\<close> behave; what depends on bytes received from
  the network, on floating point or on the dtypes \<^verbatim>\<open>pandas\<close> infers is a field of a
  record \<open>world\<close> that the definitions take as a parameter.
\<close>

subsection \<open>Python exceptions\<close>

text \<open>
  An exception is its class name and its \<^verbatim>\<open>str()\<close>. Only instances of \<^verbatim>\<open>Exception\<close>
  are modelled (what \<^verbatim>\<open>except Exception\<close> catches); \<^verbatim>\<open>KeyboardInterrupt\<close> and
  \<^verbatim>\<open>SystemExit\<close> are outside the model.
\<close>

datatype py_exception = PyExc (exc_type: string) (exc_str: string)

subsection \<open>Decimal formatting\<close>

definition digit_char :: "nat \<Rightarrow> char" where
  "digit_char n = ''0123456789'' ! (n mod 10)"

fun str_nat :: "nat \<Rightarrow> string" where
  "str_nat n = (if n < 10 then [digit_char n] else str_nat (n div 10) @ [digit_char (n mod 10)])"

declare str_nat.simps [simp del]

definition zfill :: "nat \<Rightarrow> string \<Rightarrow> string" where
  "zfill w s = replicate (w - length s) CHR ''0'' @ s"

text \<open>Python's \<^verbatim>\<open>"%0wd" % n\<close>: the sign counts towards the width.\<close>

definition fmt_0d :: "nat \<Rightarrow> int \<Rightarrow> string" where
  "fmt_0d w n =
     (if n < 0 then CHR ''-'' # zfill (w - 1) (str_nat (nat (- n)))
      else zfill w (str_nat (nat n)))"

text \<open>\<^verbatim>\<open>str(n)\<close> of an integer.\<close>

definition str_int :: "int \<Rightarrow> string" where
  "str_int n = (if n < 0 then CHR ''-'' # str_nat (nat (- n)) else str_nat (nat n))"

subsection \<open>\<^verbatim>\<open>datetime.date\<close>\<close>

text \<open>
  A \<^verbatim>\<open>date\<close> holds a year, a month and a day of the proleptic Gregorian calendar.
  Its constructor admits exactly the triples of \<open>valid_date\<close>
  (\<^verbatim>\<open>MINYEAR = 1\<close>, \<^verbatim>\<open>MAXYEAR = 9999\<close>), so every date the program receives is valid.
\<close>

record date =
  year :: int
  month :: int
  day :: int

definition mk_date :: "int \<Rightarrow> int \<Rightarrow> int \<Rightarrow> date" where
  "mk_date y m d = \<lparr>year = y, month = m, day = d\<rparr>"

definition is_leap :: "int \<Rightarrow> bool" where
  "is_leap y = (y mod 4 = 0 \<and> (y mod 100 \<noteq> 0 \<or> y mod 400 = 0))"

text \<open>The table \<^verbatim>\<open>_DAYS_IN_MONTH\<close> with February corrected in leap years.\<close>

definition days_in_month :: "int \<Rightarrow> int \<Rightarrow> int" where
  "days_in_month y m =
     (if m = 2 then (if is_leap y then 29 else 28)
      else if m = 4 \<or> m = 6 \<or> m = 9 \<or> m = 11 then 30
      else 31)"

definition valid_date :: "date \<Rightarrow> bool" where
  "valid_date d =
     (1 \<le> year d \<and> year d \<le> 9999 \<and> 1 \<le> month d \<and> month d \<le> 12 \<and>
      1 \<le> day d \<and> day d \<le> days_in_month (year d) (month d))"

definition date_max :: date where
  "date_max = mk_date 9999 12 31"

text \<open>\<^verbatim>\<open>_days_before_year\<close>, \<^verbatim>\<open>_days_before_month\<close> and \<^verbatim>\<open>date.toordinal\<close>.\<close>

definition days_before_year :: "int \<Rightarrow> int" where
  "days_before_year y = (let y1 = y - 1 in y1 * 365 + y1 div 4 - y1 div 100 + y1 div 400)"

definition days_before_month_table :: "int \<Rightarrow> int" where
  "days_before_month_table m =
     (if m = 1 then 0 else if m = 2 then 31 else if m = 3 then 59 else if m = 4 then 90
      else if m = 5 then 120 else if m = 6 then 151 else if m = 7 then 181
      else if m = 8 then 212 else if m = 9 then 243 else if m = 10 then 273
      else if m = 11 then 304 else 334)"

definition days_before_month :: "int \<Rightarrow> int \<Rightarrow> int" where
  "days_before_month y m = days_before_month_table m + (if 2 < m \<and> is_leap y then 1 else 0)"

definition toordinal :: "date \<Rightarrow> int" where
  "toordinal d = days_before_year (year d) + days_before_month (year d) (month d) + day d"

text \<open>\<^verbatim>\<open>a <= b\<close> on dates compares (year, month, day) lexicographically.\<close>

definition date_le :: "date \<Rightarrow> date \<Rightarrow> bool" where
  "date_le a b =
     (year a < year b \<or>
      (year a = year b \<and> (month a < month b \<or> (month a = month b \<and> day a \<le> day b))))"

text \<open>\<^verbatim>\<open>(b - a).days\<close>: the difference of the ordinals.\<close>

definition days_between :: "date \<Rightarrow> date \<Rightarrow> int" where
  "days_between a b = toordinal b - toordinal a"

definition OverflowError :: py_exception where
  "OverflowError = PyExc ''OverflowError'' ''date value out of range''"

text \<open>
  \<^verbatim>\<open>d + timedelta(days=1)\<close>: the next calendar day, and \<^verbatim>\<open>OverflowError\<close> past
  \<^verbatim>\<open>date.max\<close> = 9999-12-31.
\<close>

definition add_one_day :: "date \<Rightarrow> py_exception + date" where
  "add_one_day d =
     (if day d < days_in_month (year d) (month d) then Inr (d\<lparr>day := day d + 1\<rparr>)
      else if month d < 12 then Inr (d\<lparr>month := month d + 1, day := 1\<rparr>)
      else if year d < 9999 then Inr (d\<lparr>year := year d + 1, month := 1, day := 1\<rparr>)
      else Inl OverflowError)"

text \<open>
  \<^verbatim>\<open>str(d)\<close> is \<^verbatim>\<open>d.isoformat()\<close>, that is \<^verbatim>\<open>"%04d-%02d-%02d" % (year, month, day)\<close>.
\<close>

definition isoformat :: "date \<Rightarrow> string" where
  "isoformat d = fmt_0d 4 (year d) @ ''-'' @ fmt_0d 2 (month d) @ ''-'' @ fmt_0d 2 (day d)"

text \<open>
  \<^verbatim>\<open>d.strftime("%Y-%m-%d")\<close> goes through the C library. With glibc, \<^verbatim>\<open>%Y\<close> is the year
  in decimal without padding (999 for the year 999), \<^verbatim>\<open>%m\<close> and \<^verbatim>\<open>%d\<close> are two
  digits. A C library that pads \<^verbatim>\<open>%Y\<close> to four digits gives the same text from the
  year 1000 on.
\<close>

definition strftime_Y_m_d :: "date \<Rightarrow> string" where
  "strftime_Y_m_d d = str_int (year d) @ ''-'' @ fmt_0d 2 (month d) @ ''-'' @ fmt_0d 2 (day d)"

subsection \<open>\<^verbatim>\<open>pathlib\<close> paths\<close>

text \<open>
  A pure POSIX path is its root (empty, \<^verbatim>\<open>/\<close> or \<^verbatim>\<open>//\<close>) and its components.
  \<^verbatim>\<open>Path(s)\<close> splits \<open>s\<close> at the slashes and drops the empty components and the
  components \<^verbatim>\<open>.\<close>; two leading slashes, and only two, are kept as the root \<^verbatim>\<open>//\<close>.
  \<^verbatim>\<open>p / s\<close> appends the components of \<open>s\<close> when \<open>s\<close> is relative and is
  \<^verbatim>\<open>Path(s)\<close> alone when \<open>s\<close> starts with a slash. \<^verbatim>\<open>str(p)\<close> joins the components
  with slashes after the root, and is a dot for the empty path.
\<close>

record path =
  root :: string
  parts :: "string list"

fun split_on :: "char \<Rightarrow> string \<Rightarrow> string list" where
  "split_on sep [] = [[]]"
| "split_on sep (c # cs) =
     (if c = sep then [] # split_on sep cs
      else (case split_on sep cs of
              [] \<Rightarrow> [[c]]
            | x # xs \<Rightarrow> (c # x) # xs))"

definition path_components :: "string \<Rightarrow> string list" where
  "path_components s = filter (\<lambda>x. x \<noteq> [] \<and> x \<noteq> ''.'') (split_on CHR ''/'' s)"

definition path_root :: "string \<Rightarrow> string" where
  "path_root s =
     (let k = length (takeWhile (\<lambda>c. c = CHR ''/'') s)
      in if k = 0 then [] else if k = 2 then ''//'' else ''/'')"

definition Path :: "string \<Rightarrow> path" where
  "Path s = \<lparr>root = path_root s, parts = path_components s\<rparr>"

definition path_div :: "path \<Rightarrow> string \<Rightarrow> path" where
  "path_div p s =
     (if path_root s \<noteq> [] then Path s
      else \<lparr>root = root p, parts = parts p @ path_components s\<rparr>)"

fun join_with :: "string \<Rightarrow> string list \<Rightarrow> string" where
  "join_with sep [] = []"
| "join_with sep [x] = x"
| "join_with sep (x # y # ys) = x @ sep @ join_with sep (y # ys)"

definition path_str :: "path \<Rightarrow> string" where
  "path_str p =
     (if root p = [] \<and> parts p = [] then ''.'' else root p @ join_with ''/'' (parts p))"

subsection \<open>The downloader object\<close>

record downloader =
  kline_url_prefix :: string
  base_path :: path

text \<open>
  \<^verbatim>\<open>__init__\<close>. The directory it creates (\<^verbatim>\<open>mkdir(parents=True, exist_ok=True)\<close>)
  is not part of the state modelled below, which holds files only.
\<close>

definition init :: "string \<Rightarrow> downloader" where
  "init bp =
     \<lparr>kline_url_prefix = ''https://data.binance.vision/data/spot/daily/klines'',
      base_path = Path bp\<rparr>"

definition get_url :: "downloader \<Rightarrow> string \<Rightarrow> string \<Rightarrow> date \<Rightarrow> string" where
  "get_url self timeframe symbol dt =
     (let date_str = strftime_Y_m_d dt
      in kline_url_prefix self @ ''/'' @ symbol @ ''/'' @ timeframe @ ''/'' @
         symbol @ ''-'' @ timeframe @ ''-'' @ date_str @ ''.zip'')"

subsection \<open>The outside world\<close>

text \<open>
  An entry of a data frame is the missing-value marker \<^verbatim>\<open>NaN\<close>, an integer, an instant
  (a \<^verbatim>\<open>Timestamp\<close>: nanoseconds since 1970-01-01 00:00:00 UTC), the missing instant
  \<^verbatim>\<open>NaT\<close>, or a value of another kind (a float, a string), whose type is left open. A
  frame returned by \<^verbatim>\<open>pd.read_csv(f, header=None)\<close> has the columns
  \<^verbatim>\<open>0, ..., ncols - 1\<close> and a fresh \<^verbatim>\<open>RangeIndex\<close>, so it is its column count and its
  rows.
\<close>

datatype 'v cell = NaN | Integer int | Timestamp int | NaT | Other 'v

record 'v frame =
  ncols :: nat
  rows :: "'v cell list list"

record response =
  status_code :: int
  content :: string

record zip_file =
  namelist :: "string list"
  zip_open :: "string \<Rightarrow> py_exception + string"

text \<open>
  The library calls whose result depends on the network, on the bytes received, on the disk
  or on \<^verbatim>\<open>pandas\<close> internals. A call returns or raises an \<^verbatim>\<open>Exception\<close> (\<open>Inl\<close>).
  \<^item> \<open>requests_get\<close> is the remote source: what \<^verbatim>\<open>requests.get(url)\<close> does for a URL.
  \<^item> \<open>concat_cast column\<close> is the cast \<^verbatim>\<open>pd.concat\<close> applies to the entries of a column:
    the column gets one dtype, the common one of its pieces, which the column's entries
    decide (an integer in a column with a float or a \<^verbatim>\<open>NaN\<close> becomes a float).
  \<^item> \<open>to_datetime_other\<close> is \<^verbatim>\<open>pd.to_datetime(_, unit='ms')\<close> on an entry that is neither
    \<^verbatim>\<open>NaN\<close> nor an integer whose instant fits 64 bits of nanoseconds.
  \<^item> \<open>format_index column\<close> and \<open>format_column column\<close> give the text \<^verbatim>\<open>to_csv\<close>
    writes for an entry of the index or of a data column: \<^verbatim>\<open>pandas\<close> formats a column as a
    whole, so the text of an entry depends on the column it stands in.
  \<^item> \<open>write_error\<close> is the error opening a path for writing raises, if any (a missing
    directory, a permission). A failure part-way through a write is not modelled.
\<close>

record 'v world =
  requests_get :: "string \<Rightarrow> py_exception + response"
  ZipFile :: "string \<Rightarrow> py_exception + zip_file"
  read_csv :: "string \<Rightarrow> py_exception + 'v frame"
  concat_cast :: "'v cell list \<Rightarrow> 'v cell \<Rightarrow> 'v cell"
  to_datetime_other :: "'v cell \<Rightarrow> py_exception + 'v cell"
  format_index :: "'v cell list \<Rightarrow> 'v cell \<Rightarrow> string"
  format_column :: "'v cell list \<Rightarrow> 'v cell \<Rightarrow> string"
  write_error :: "path \<Rightarrow> py_exception option"

text \<open>
  What a call changes: the files on disk (a CSV file is its list of records, each a list
  of fields), the lines printed, and the URLs passed to \<^verbatim>\<open>requests.get\<close>, in order.
\<close>

record system =
  files :: "path \<rightharpoonup> string list list"
  stdout :: "string list"
  get_calls :: "string list"

subsection \<open>One day of the loop\<close>

definition IndexError :: py_exception where
  "IndexError = PyExc ''IndexError'' ''list index out of range''"

text \<open>
  The body of the \<^verbatim>\<open>try\<close> block: \<open>Inr (Some df)\<close> when a frame is appended,
  \<open>Inr None\<close> on a status other than 200, \<open>Inl e\<close> when \<open>e\<close> is raised.
\<close>

definition fetch_day :: "'v world \<Rightarrow> string \<Rightarrow> py_exception + 'v frame option" where
  "fetch_day w url =
     (case requests_get w url of
        Inl e \<Rightarrow> Inl e
      | Inr response \<Rightarrow>
          if status_code response = 200 then
            (case ZipFile w (content response) of
               Inl e \<Rightarrow> Inl e
             | Inr zf \<Rightarrow>
                 (case namelist zf of
                    [] \<Rightarrow> Inl IndexError
                  | csv_filename # _ \<Rightarrow>
                      (case zip_open zf csv_filename of
                         Inl e \<Rightarrow> Inl e
                       | Inr csv_file \<Rightarrow>
                           (case read_csv w csv_file of
                              Inl e \<Rightarrow> Inl e
                            | Inr df \<Rightarrow> Inr (Some df)))))
          else Inr None)"

definition no_data_msg :: "date \<Rightarrow> string" where
  "no_data_msg current_date =
     ''No data available for '' @ isoformat current_date @
     '' - Binance is probably having a coffee break''"

definition error_msg :: "date \<Rightarrow> py_exception \<Rightarrow> string" where
  "error_msg current_date e =
     ''Error downloading data for '' @ isoformat current_date @ '': '' @ exc_str e @
     '' - Time to blame the internet''"

text \<open>Lines 79 to 93: the URL, the \<^verbatim>\<open>try\<close> block and its handler.\<close>

definition loop_body ::
  "'v world \<Rightarrow> downloader \<Rightarrow> string \<Rightarrow> string \<Rightarrow> date \<Rightarrow> 'v frame list \<Rightarrow> system
     \<Rightarrow> 'v frame list \<times> system" where
  "loop_body w self symbol timeframe current_date all_data st =
     (let url = get_url self timeframe symbol current_date;
          st1 = st\<lparr>get_calls := get_calls st @ [url]\<rparr>
      in case fetch_day w url of
           Inr (Some df) \<Rightarrow> (all_data @ [df], st1)
         | Inr None \<Rightarrow> (all_data, st1\<lparr>stdout := stdout st1 @ [no_data_msg current_date]\<rparr>)
         | Inl e \<Rightarrow> (all_data, st1\<lparr>stdout := stdout st1 @ [error_msg current_date e]\<rparr>))"

subsection \<open>The day loop\<close>

text \<open>
  Lines 78 to 95. The increment of line 95 stands outside the \<^verbatim>\<open>try\<close> block, so its
  \<^verbatim>\<open>OverflowError\<close> leaves the loop and the call.
\<close>

function day_loop ::
  "'v world \<Rightarrow> downloader \<Rightarrow> string \<Rightarrow> string \<Rightarrow> date \<Rightarrow> date \<Rightarrow> 'v frame list \<Rightarrow> system
     \<Rightarrow> (py_exception + 'v frame list) \<times> system" where
  "day_loop w self symbol timeframe current_date end_date all_data st =
     (if date_le current_date end_date then
        (case loop_body w self symbol timeframe current_date all_data st of
           (all_data', st') \<Rightarrow>
             (case add_one_day current_date of
                Inl e \<Rightarrow> (Inl e, st')
              | Inr next_date \<Rightarrow>
                  day_loop w self symbol timeframe next_date end_date all_data' st'))
      else (Inr all_data, st))"
  by pat_completeness auto
termination
proof (relation "inv_image (less_than <*lex*> less_than <*lex*> less_than)
    (\<lambda>(w, self, symbol, timeframe, c, e, all_data, st).
       (nat (year e + 1 - year c), nat (12 - month c), nat (31 - day c)))")
  show "wf (inv_image (less_than <*lex*> less_than <*lex*> less_than)
    (\<lambda>(w :: 'v world, self :: downloader, symbol :: string, timeframe :: string,
        c, e, all_data :: 'v frame list, st :: system).
       (nat (year e + 1 - year c), nat (12 - month c), nat (31 - day c))))"
    by (intro wf_inv_image wf_lex_prod wf_less_than)
next
  fix w :: "'v world" and self symbol timeframe current_date end_date
    and all_data :: "'v frame list" and st x all_data' st' next_date
  assume le: "date_le current_date end_date"
    and step: "add_one_day current_date = Inr next_date"
  have dim: "days_in_month (year current_date) (month current_date) \<le> 31"
    by (simp add: days_in_month_def)
  show "((w, self, symbol, timeframe, next_date, end_date, all_data', st'),
         (w, self, symbol, timeframe, current_date, end_date, all_data, st))
        \<in> inv_image (less_than <*lex*> less_than <*lex*> less_than)
            (\<lambda>(w, self, symbol, timeframe, c, e, all_data, st).
               (nat (year e + 1 - year c), nat (12 - month c), nat (31 - day c)))"
    using le step dim
    by (auto simp: add_one_day_def date_le_def split: if_splits)
qed

declare day_loop.simps [simp del]

subsection \<open>The \<^verbatim>\<open>pandas\<close> steps after the loop\<close>

text \<open>
  \<^verbatim>\<open>pd.concat(all_data, ignore_index=True)\<close> takes the union of the column labels
  (\<^verbatim>\<open>0, ..., n - 1\<close> for the widest frame), stacks the rows in list order, fills the
  columns a frame lacks with \<^verbatim>\<open>NaN\<close> and casts every column to one dtype. On an empty
  list it raises.
\<close>

definition pad_row :: "nat \<Rightarrow> 'v cell list \<Rightarrow> 'v cell list" where
  "pad_row n r = r @ replicate (n - length r) NaN"

definition widest :: "'v frame list \<Rightarrow> nat" where
  "widest dfs = foldr max (map ncols dfs) 0"

definition stacked :: "nat \<Rightarrow> 'v frame list \<Rightarrow> 'v cell list list" where
  "stacked n dfs = concat (map (\<lambda>df. map (pad_row n) (rows df)) dfs)"

definition cell_at :: "nat \<Rightarrow> 'v cell list \<Rightarrow> 'v cell" where
  "cell_at j r = (if j < length r then r ! j else NaN)"

definition column_at :: "nat \<Rightarrow> 'v cell list list \<Rightarrow> 'v cell list" where
  "column_at j R = map (cell_at j) R"

definition cast_rows :: "'v world \<Rightarrow> nat \<Rightarrow> 'v cell list list \<Rightarrow> 'v cell list list" where
  "cast_rows w n R =
     map (\<lambda>r. map (\<lambda>j. concat_cast w (column_at j R) (cell_at j r)) [0..<n]) R"

definition combined_rows :: "'v world \<Rightarrow> 'v frame list \<Rightarrow> 'v cell list list" where
  "combined_rows w dfs = cast_rows w (widest dfs) (stacked (widest dfs) dfs)"

definition pd_concat :: "'v world \<Rightarrow> 'v frame list \<Rightarrow> py_exception + 'v frame" where
  "pd_concat w dfs =
     (if dfs = [] then Inl (PyExc ''ValueError'' ''No objects to concatenate'')
      else Inr \<lparr>ncols = widest dfs, rows = combined_rows w dfs\<rparr>)"

text \<open>A frame with named columns and an index: the default one or a named column.\<close>

datatype 'v index = RangeIndex nat | NamedIndex string "'v cell list"

record 'v dataframe =
  index :: "'v index"
  columns :: "string list"
  data :: "'v cell list list"

definition COLUMN_NAMES :: "string list" where
  "COLUMN_NAMES =
     [''timestamp'', ''open'', ''high'', ''low'', ''close'',
      ''volume'', ''close_time'', ''quote_volume'', ''trades'',
      ''taker_buy_base'', ''taker_buy_quote'', ''ignore'']"

text \<open>\<^verbatim>\<open>df.columns = names\<close>\<close>

definition set_columns :: "'v frame \<Rightarrow> string list \<Rightarrow> py_exception + 'v dataframe" where
  "set_columns df names =
     (if length names \<noteq> ncols df then
        Inl (PyExc ''ValueError''
               (''Length mismatch: Expected axis has '' @ str_nat (ncols df) @
                '' elements, new values have '' @ str_nat (length names) @ '' elements''))
      else Inr \<lparr>index = RangeIndex (length (rows df)), columns = names, data = rows df\<rparr>)"

fun col_pos :: "string \<Rightarrow> string list \<Rightarrow> nat option" where
  "col_pos name [] = None"
| "col_pos name (c # cs) =
     (if c = name then Some 0 else map_option Suc (col_pos name cs))"

definition KeyError :: "string \<Rightarrow> py_exception" where
  "KeyError name = PyExc ''KeyError'' name"

text \<open>\<^verbatim>\<open>df[name]\<close>\<close>

definition getitem :: "'v dataframe \<Rightarrow> string \<Rightarrow> py_exception + 'v cell list" where
  "getitem df name =
     (case col_pos name (columns df) of
        None \<Rightarrow> Inl (KeyError name)
      | Some i \<Rightarrow> Inr (column_at i (data df)))"

text \<open>
  \<^verbatim>\<open>pd.to_datetime(_, unit='ms')\<close> on one entry: an integer is a number of milliseconds
  since the epoch and becomes the instant that many milliseconds after it, when that
  instant fits 64 bits of nanoseconds; \<^verbatim>\<open>NaN\<close> becomes \<^verbatim>\<open>NaT\<close>. On a series, every
  entry is converted, and the first entry that cannot be raises.
\<close>

definition to_datetime :: "'v world \<Rightarrow> 'v cell \<Rightarrow> py_exception + 'v cell" where
  "to_datetime w c =
     (case c of
        Integer ms \<Rightarrow>
          if - 9223372036854 \<le> ms \<and> ms \<le> 9223372036854 then Inr (Timestamp (ms * 1000000))
          else to_datetime_other w c
      | NaN \<Rightarrow> Inr NaT
      | Timestamp t \<Rightarrow> to_datetime_other w c
      | NaT \<Rightarrow> to_datetime_other w c
      | Other v \<Rightarrow> to_datetime_other w c)"

fun to_datetime_series :: "'v world \<Rightarrow> 'v cell list \<Rightarrow> py_exception + 'v cell list" where
  "to_datetime_series w [] = Inr []"
| "to_datetime_series w (c # cs) =
     (case to_datetime w c of
        Inl e \<Rightarrow> Inl e
      | Inr t \<Rightarrow>
          (case to_datetime_series w cs of
             Inl e \<Rightarrow> Inl e
           | Inr ts \<Rightarrow> Inr (t # ts)))"

text \<open>\<^verbatim>\<open>df[name] = series\<close>: an existing column is replaced, a new one is appended.\<close>

definition setitem :: "'v dataframe \<Rightarrow> string \<Rightarrow> 'v cell list \<Rightarrow> 'v dataframe" where
  "setitem df name series =
     (case col_pos name (columns df) of
        Some i \<Rightarrow> df\<lparr>data := map2 (\<lambda>r c. r[i := c]) (data df) series\<rparr>
      | None \<Rightarrow> df\<lparr>columns := columns df @ [name],
                     data := map2 (\<lambda>r c. r @ [c]) (data df) series\<rparr>)"

definition remove_nth :: "nat \<Rightarrow> 'a list \<Rightarrow> 'a list" where
  "remove_nth i xs = take i xs @ drop (Suc i) xs"

text \<open>\<^verbatim>\<open>df.set_index(name, inplace=True)\<close>: the column leaves the data and becomes the index.\<close>

definition set_index :: "'v dataframe \<Rightarrow> string \<Rightarrow> py_exception + 'v dataframe" where
  "set_index df name =
     (case col_pos name (columns df) of
        None \<Rightarrow> Inl (KeyError name)
      | Some i \<Rightarrow>
          Inr \<lparr>index = NamedIndex name (column_at i (data df)),
               columns = remove_nth i (columns df),
               data = map (remove_nth i) (data df)\<rparr>)"

text \<open>
  The text of \<^verbatim>\<open>df.to_csv(path)\<close>: a header record (the index name, then the column
  names) and one record per row (the index entry, then the row's entries, one for each
  column name), every entry formatted as its column is.
\<close>

definition index_label :: "'v index \<Rightarrow> string" where
  "index_label ix = (case ix of RangeIndex n \<Rightarrow> [] | NamedIndex name vs \<Rightarrow> name)"

definition index_fields :: "'v world \<Rightarrow> 'v index \<Rightarrow> string list" where
  "index_fields w ix =
     (case ix of
        RangeIndex n \<Rightarrow> map str_nat [0..<n]
      | NamedIndex name vs \<Rightarrow> map (format_index w vs) vs)"

definition row_fields :: "'v world \<Rightarrow> 'v dataframe \<Rightarrow> 'v cell list \<Rightarrow> string list" where
  "row_fields w df r =
     map (\<lambda>j. format_column w (column_at j (data df)) (cell_at j r)) [0..<length (columns df)]"

definition to_csv :: "'v world \<Rightarrow> 'v dataframe \<Rightarrow> string list list" where
  "to_csv w df =
     (index_label (index df) # columns df) #
     map2 (\<lambda>i r. i # row_fields w df r) (index_fields w (index df)) (data df)"

subsection \<open>\<^verbatim>\<open>download_data\<close>\<close>

definition output_path :: "downloader \<Rightarrow> string \<Rightarrow> string \<Rightarrow> date \<Rightarrow> date \<Rightarrow> path" where
  "output_path self symbol timeframe start_date end_date =
     path_div (base_path self)
       (symbol @ ''_'' @ timeframe @ ''_'' @ isoformat start_date @ ''_'' @
        isoformat end_date @ ''.csv'')"

definition saved_msg :: "path \<Rightarrow> string" where
  "saved_msg output_file =
     ''Data saved to '' @ path_str output_file @
     '' - Your hard drive is now slightly more valuable''"

text \<open>
  Lines 97 to 118, on the accumulator the loop leaves. An exception raised here is not
  caught; when the file cannot be opened, nothing is written and nothing is printed.
\<close>

definition finish ::
  "'v world \<Rightarrow> downloader \<Rightarrow> string \<Rightarrow> string \<Rightarrow> date \<Rightarrow> date \<Rightarrow> 'v frame list \<Rightarrow> system
     \<Rightarrow> (py_exception + 'v dataframe option) \<times> system" where
  "finish w self symbol timeframe start_date end_date all_data st =
     (if all_data \<noteq> [] then
        (case pd_concat w all_data of
           Inl e \<Rightarrow> (Inl e, st)
         | Inr combined \<Rightarrow>
        (case set_columns combined COLUMN_NAMES of
           Inl e \<Rightarrow> (Inl e, st)
         | Inr named \<Rightarrow>
        (case getitem named ''timestamp'' of
           Inl e \<Rightarrow> (Inl e, st)
         | Inr ts \<Rightarrow>
        (case to_datetime_series w ts of
           Inl e \<Rightarrow> (Inl e, st)
         | Inr dts \<Rightarrow>
        (case set_index (setitem named ''timestamp'' dts) ''timestamp'' of
           Inl e \<Rightarrow> (Inl e, st)
         | Inr combined_df \<Rightarrow>
             (let output_file = output_path self symbol timeframe start_date end_date
              in case write_error w output_file of
                   Some e \<Rightarrow> (Inl e, st)
                 | None \<Rightarrow>
                     (let st1 = st\<lparr>files := (files st)(output_file \<mapsto> to_csv w combined_df)\<rparr>;
                          st2 = st1\<lparr>stdout := stdout st1 @ [saved_msg output_file]\<rparr>
                      in (Inr (Some combined_df), st2))))))))
      else (Inr None, st))"

definition download_data ::
  "'v world \<Rightarrow> downloader \<Rightarrow> string \<Rightarrow> string \<Rightarrow> date \<Rightarrow> date \<Rightarrow> system
     \<Rightarrow> (py_exception + 'v dataframe option) \<times> system" where
  "download_data w self symbol timeframe start_date end_date st =
     (case day_loop w self symbol timeframe start_date end_date [] st of
        (Inl e, st') \<Rightarrow> (Inl e, st')
      | (Inr all_data, st') \<Rightarrow> finish w self symbol timeframe start_date end_date all_data st')"

subsection \<open>Notions the properties are stated with\<close>

text \<open>
  \<open>days_from d n\<close> lists \<open>n\<close> consecutive calendar days from \<open>d\<close> on (it stops at
  \<^verbatim>\<open>date.max\<close>), and \<open>date_range\<close> the days from the start date to the end date, both
  included: \<^verbatim>\<open>(end_date - start_date).days + 1\<close> of them.
\<close>

fun days_from :: "date \<Rightarrow> nat \<Rightarrow> date list" where
  "days_from d 0 = []"
| "days_from d (Suc n) =
     d # (case add_one_day d of Inl e \<Rightarrow> [] | Inr d' \<Rightarrow> days_from d' n)"

definition date_range :: "date \<Rightarrow> date \<Rightarrow> date list" where
  "date_range start_date end_date =
     days_from start_date (nat (days_between start_date end_date + 1))"

text \<open>
  What one day contributes: the frame appended to the accumulator (a successful day) or
  nothing, and the line printed (a failed day) or nothing.
\<close>

definition day_frame ::
  "'v world \<Rightarrow> downloader \<Rightarrow> string \<Rightarrow> string \<Rightarrow> date \<Rightarrow> 'v frame option" where
  "day_frame w self symbol timeframe d =
     (case fetch_day w (get_url self timeframe symbol d) of
        Inr (Some df) \<Rightarrow> Some df
      | Inr None \<Rightarrow> None
      | Inl e \<Rightarrow> None)"

definition day_log ::
  "'v world \<Rightarrow> downloader \<Rightarrow> string \<Rightarrow> string \<Rightarrow> date \<Rightarrow> string option" where
  "day_log w self symbol timeframe d =
     (case fetch_day w (get_url self timeframe symbol d) of
        Inr (Some df) \<Rightarrow> None
      | Inr None \<Rightarrow> Some (no_data_msg d)
      | Inl e \<Rightarrow> Some (error_msg d e))"

definition day_frames ::
  "'v world \<Rightarrow> downloader \<Rightarrow> string \<Rightarrow> string \<Rightarrow> date \<Rightarrow> date \<Rightarrow> 'v frame list" where
  "day_frames w self symbol timeframe start_date end_date =
     List.map_filter (day_frame w self symbol timeframe) (date_range start_date end_date)"

text \<open>The entries of the index of a frame re-indexed by a column.\<close>

definition index_values :: "'v dataframe \<Rightarrow> 'v cell list" where
  "index_values df = (case index df of RangeIndex n \<Rightarrow> [] | NamedIndex name vs \<Rightarrow> vs)"

text \<open>The ten characters \<^verbatim>\<open>YYYY-MM-DD\<close> of a date, digit by digit.\<close>

definition iso_digits :: "date \<Rightarrow> string" where
  "iso_digits d =
     (let y = nat (year d); m = nat (month d); n = nat (day d)
      in [digit_char (y div 1000), digit_char (y div 100), digit_char (y div 10), digit_char y,
          CHR ''-'', digit_char (m div 10), digit_char m,
          CHR ''-'', digit_char (n div 10), digit_char n])"

subsection \<open>A remote source to run the definitions on\<close>

text \<open>
  For BTCUSDT at 1h: 2024-01-01 and 2024-01-03 answer 200 with an archive of one row of
  12 integers, 2024-01-02 answers 404, the request for 2024-01-04 raises, 2024-01-05 answers
  200 with a body that is no archive, 2024-01-06 answers 200 with a row of 11 fields;
  2024-01-10 has the integer \<open>2\<^sup>5\<^sup>3 + 1\<close> in its last column and 2024-01-11 the decimal
  0.5 there. The symbol \<^verbatim>\<open>/tmp/x\<close> has data for 2024-01-01. Every other URL answers 404.
  Values that are not integers are kept as their text. The casts and the formats are those
  of \<^verbatim>\<open>pandas\<close> on these data: in a column that is not all integers an integer becomes
  a float (\<open>2\<^sup>5\<^sup>3 + 1\<close> is not a float: it becomes \<open>2\<^sup>5\<^sup>3\<close>), and an index of midnights is
  written as dates. The disk has the directories \<^verbatim>\<open>data\<close> and \<^verbatim>\<open>/tmp\<close>.
\<close>

definition demo_url :: "int \<Rightarrow> string" where
  "demo_url k = get_url (init ''data'') ''1h'' ''BTCUSDT'' (mk_date 2024 1 k)"

definition demo_remote :: "string \<Rightarrow> py_exception + response" where
  "demo_remote url =
     (if url = demo_url 1 then Inr \<lparr>status_code = 200, content = ''1704067200000''\<rparr>
      else if url = demo_url 3 then Inr \<lparr>status_code = 200, content = ''1704240000000''\<rparr>
      else if url = demo_url 4 then Inl (PyExc ''ConnectionError'' ''connection refused'')
      else if url = demo_url 5 then Inr \<lparr>status_code = 200, content = ''garbage''\<rparr>
      else if url = demo_url 6 then Inr \<lparr>status_code = 200, content = ''short''\<rparr>
      else if url = demo_url 10 then Inr \<lparr>status_code = 200, content = ''big''\<rparr>
      else if url = demo_url 11 then Inr \<lparr>status_code = 200, content = ''half''\<rparr>
      else if url = get_url (init ''data'') ''1h'' ''/tmp/x'' (mk_date 2024 1 1)
        then Inr \<lparr>status_code = 200, content = ''1704067200000''\<rparr>
      else Inr \<lparr>status_code = 404, content = []\<rparr>)"

definition demo_read_csv :: "string \<Rightarrow> py_exception + string frame" where
  "demo_read_csv text =
     (if text = ''1704067200000''
        then Inr \<lparr>ncols = 12, rows = [Integer 1704067200000 # replicate 11 (Integer 1)]\<rparr>
      else if text = ''1704240000000''
        then Inr \<lparr>ncols = 12, rows = [Integer 1704240000000 # replicate 11 (Integer 1)]\<rparr>
      else if text = ''short''
        then Inr \<lparr>ncols = 11, rows = [replicate 11 (Integer 1)]\<rparr>
      else if text = ''big''
        then Inr \<lparr>ncols = 12, rows = [Integer 1704844800000 # replicate 10 (Integer 1) @
                                            [Integer 9007199254740993]]\<rparr>
      else if text = ''half''
        then Inr \<lparr>ncols = 12, rows = [Integer 1704931200000 # replicate 10 (Integer 1) @
                                            [Other ''0.5'']]\<rparr>
      else Inl (PyExc ''EmptyDataError'' ''No columns to parse from file''))"

fun is_integer :: "'v cell \<Rightarrow> bool" where
  "is_integer (Integer n) = True"
| "is_integer c = False"

definition demo_float :: "int \<Rightarrow> string" where
  "demo_float n = (if n = 9007199254740993 then ''9007199254740992.0'' else str_int n @ ''.0'')"

definition demo_cast :: "string cell list \<Rightarrow> string cell \<Rightarrow> string cell" where
  "demo_cast column c =
     (if list_all is_integer column then c
      else (case c of Integer n \<Rightarrow> Other (demo_float n) | _ \<Rightarrow> c))"

definition demo_instant :: "int \<Rightarrow> string" where
  "demo_instant t =
     (if t = 1704067200000000000 then ''2024-01-01''
      else if t = 1704240000000000000 then ''2024-01-03''
      else if t = 1704844800000000000 then ''2024-01-10''
      else if t = 1704931200000000000 then ''2024-01-11''
      else str_int t)"

definition demo_format :: "string cell list \<Rightarrow> string cell \<Rightarrow> string" where
  "demo_format column c =
     (case c of
        NaN \<Rightarrow> []
      | Integer n \<Rightarrow> str_int n
      | Timestamp t \<Rightarrow> demo_instant t
      | NaT \<Rightarrow> []
      | Other v \<Rightarrow> v)"

definition demo_write_error :: "path \<Rightarrow> py_exception option" where
  "demo_write_error p =
     (if (root p = [] \<and> butlast (parts p) = [''data'']) \<or>
         (root p = ''/'' \<and> butlast (parts p) = [''tmp'']) then None
      else Some (PyExc ''OSError''
                   (''Cannot save file into a non-existent directory: '' @
                    path_str \<lparr>root = root p, parts = butlast (parts p)\<rparr>)))"

definition demo_world :: "string world" where
  "demo_world =
     \<lparr>requests_get = demo_remote,
      ZipFile = (\<lambda>body.
        if body = ''garbage'' then Inl (PyExc ''BadZipFile'' ''File is not a zip file'')
        else Inr \<lparr>namelist = [''k.csv''], zip_open = (\<lambda>name. Inr body)\<rparr>),
      read_csv = demo_read_csv,
      concat_cast = demo_cast,
      to_datetime_other = (\<lambda>c. Inl (PyExc ''ValueError'' ''cannot convert'')),
      format_index = demo_format,
      format_column = demo_format,
      write_error = demo_write_error\<rparr>"

definition empty_system :: system where
  "empty_system = \<lparr>files = Map.empty, stdout = [], get_calls = []\<rparr>"

section \<open>Properties\<close>

subsection \<open>The calendar\<close>

lemma div_stepF:
  assumes "0 < k" "y mod k \<noteq> 0"
  shows "((y::int) - 1) div k = y div k"
proof -
  have "y - 1 = k * (y div k) + (y mod k - 1)"
    by (simp add: algebra_simps)
  moreover have "0 \<le> y mod k - 1" "y mod k - 1 < k"
    using assms(2) pos_mod_bound[OF assms(1), of y] pos_mod_sign[OF assms(1), of y] by linarith+
  ultimately show "(y - 1) div k = y div k"
    by (intro int_div_pos_eq[where r = "y mod k - 1"]) auto
qed

lemma div_stepT:
  assumes "0 < k" "y mod k = 0"
  shows "((y::int) - 1) div k = y div k - 1"
proof -
  have "y = k * (y div k)"
    using assms(2) by auto
  then have "y - 1 = k * (y div k - 1) + (k - 1)"
    by (simp add: algebra_simps)
  then show ?thesis
    using assms(1) by (intro int_div_pos_eq[where r = "k - 1"]) auto
qed

lemma mod400_100: "(y::int) mod 400 = 0 \<Longrightarrow> y mod 100 = 0"
  using dvd_trans[of "100::int" 400 y] by (simp add: mod_eq_0_iff_dvd)

lemma mod100_4: "(y::int) mod 100 = 0 \<Longrightarrow> y mod 4 = 0"
  using dvd_trans[of "4::int" 100 y] by (simp add: mod_eq_0_iff_dvd)

lemma dby_Suc: "days_before_year (y + 1) = days_before_year y + (if is_leap y then 366 else 365)"
proof -
  have a: "(y - 1) div 4 = y div 4 - (if y mod 4 = 0 then 1 else 0)"
    using div_stepF[of 4 y] div_stepT[of 4 y] by simp
  have b: "(y - 1) div 100 = y div 100 - (if y mod 100 = 0 then 1 else 0)"
    using div_stepF[of 100 y] div_stepT[of 100 y] by simp
  have c: "(y - 1) div 400 = y div 400 - (if y mod 400 = 0 then 1 else 0)"
    using div_stepF[of 400 y] div_stepT[of 400 y] by simp
  show ?thesis
    using mod400_100[of y] mod100_4[of y]
    by (simp add: days_before_year_def is_leap_def a b c)
qed

lemma dim_bounds: "28 \<le> days_in_month y m" "days_in_month y m \<le> 31"
  by (simp_all add: days_in_month_def)

lemma dbm_step:
  assumes "1 \<le> m" "m \<le> 11"
  shows "days_before_month y (m + 1) = days_before_month y m + days_in_month y m"
proof -
  have "m = 1 \<or> m = 2 \<or> m = 3 \<or> m = 4 \<or> m = 5 \<or> m = 6 \<or> m = 7 \<or> m = 8 \<or> m = 9 \<or> m = 10 \<or> m = 11"
    using assms by arith
  then show ?thesis
    by (elim disjE) (simp_all add: days_before_month_def days_before_month_table_def days_in_month_def)
qed

lemma dbm_12: "days_before_month y 12 + days_in_month y 12 = (if is_leap y then 366 else 365)"
  by (simp add: days_before_month_def days_before_month_table_def days_in_month_def)

lemma dbm_1: "days_before_month y 1 = 0"
  by (simp add: days_before_month_def days_before_month_table_def)

lemma add_one_day_ord:
  assumes v: "valid_date d" and s: "add_one_day d = Inr d'"
  shows "valid_date d' \<and> toordinal d' = toordinal d + 1"
proof -
  consider (a) "day d < days_in_month (year d) (month d)"
    | (b) "day d = days_in_month (year d) (month d)" "month d < 12"
    | (c) "day d = days_in_month (year d) (month d)" "month d = 12" "year d < 9999"
    | (e) "day d = days_in_month (year d) (month d)" "month d = 12" "year d = 9999"
    using v unfolding valid_date_def by linarith
  then show ?thesis
  proof cases
    case a
    then have "d' = d\<lparr>day := day d + 1\<rparr>" using s by (simp add: add_one_day_def)
    then show ?thesis using v a by (simp add: valid_date_def toordinal_def)
  next
    case b
    then have d': "d' = d\<lparr>month := month d + 1, day := 1\<rparr>" using s by (simp add: add_one_day_def)
    have "days_before_month (year d) (month d + 1) = days_before_month (year d) (month d) + day d"
      using v b dbm_step[of "month d" "year d"] by (simp add: valid_date_def)
    then show ?thesis using v b d' dim_bounds(1)[of "year d" "month d + 1"]
      by (simp add: valid_date_def toordinal_def)
  next
    case c
    then have d': "d' = d\<lparr>year := year d + 1, month := 1, day := 1\<rparr>" using s by (simp add: add_one_day_def)
    show ?thesis using v c d' dbm_12[of "year d"] dim_bounds(1)[of "year d + 1" 1]
      by (simp add: valid_date_def toordinal_def dby_Suc dbm_1 split: if_splits)
  next
    case e
    then show ?thesis using s by (simp add: add_one_day_def)
  qed
qed

lemma add_one_day_overflow:
  assumes "valid_date d"
  shows "add_one_day d = Inl e \<longleftrightarrow> (d = date_max \<and> e = OverflowError)"
proof -
  have "days_in_month (year d) 12 = 31" by (simp add: days_in_month_def)
  then show ?thesis
    using assms
    unfolding valid_date_def add_one_day_def date_max_def mk_date_def
    by (cases d) auto
qed

lemma dby_mono: "y \<le> y' \<Longrightarrow> days_before_year y \<le> days_before_year y'"
proof (induction y' rule: int_ge_induct)
  case base
  then show ?case by simp
next
  case (step i)
  then show ?case using dby_Suc[of i] by (simp split: if_splits)
qed

lemma dbm_nonneg: "0 \<le> days_before_month y m"
  by (simp add: days_before_month_def days_before_month_table_def)

lemma dbm_mono_le:
  assumes "1 \<le> m" "m \<le> m'"
  shows "m' \<le> 12 \<longrightarrow> days_before_month y m \<le> days_before_month y m'"
  using assms(2)
proof (induction m' rule: int_ge_induct)
  case base
  then show ?case by simp
next
  case (step i)
  then show ?case
    using dbm_step[of i y] dim_bounds(1)[of y i] assms(1) by auto
qed

lemma dbm_mono:
  assumes "1 \<le> m" "m < m'" "m' \<le> 12"
  shows "days_before_month y m + days_in_month y m \<le> days_before_month y m'"
  using dbm_step[of m y] dbm_mono_le[of "m + 1" m' y] assms by simp

lemma dbm_year:
  assumes "1 \<le> m" "m \<le> 12"
  shows "days_before_month y m + days_in_month y m \<le> (if is_leap y then 366 else 365)"
proof (cases "m = 12")
  case True
  then show ?thesis using dbm_12[of y] by simp
next
  case False
  then show ?thesis using dbm_mono[of m 12 y] assms dbm_12[of y] dim_bounds(1)[of y 12]
    by (simp split: if_splits)
qed

lemma ord_bounds:
  assumes "valid_date d"
  shows "days_before_year (year d) < toordinal d" "toordinal d \<le> days_before_year (year d + 1)"
  using assms dbm_nonneg[of "year d" "month d"] dbm_year[of "month d" "year d"]
  unfolding valid_date_def toordinal_def dby_Suc
  by (simp_all split: if_splits)

lemma toordinal_strict:
  assumes "valid_date a" "valid_date b"
    and "year a < year b \<or> (year a = year b \<and> (month a < month b \<or> (month a = month b \<and> day a < day b)))"
  shows "toordinal a < toordinal b"
proof -
  consider (y) "year a < year b" | (m) "year a = year b" "month a < month b"
    | (d) "year a = year b" "month a = month b" "day a < day b"
    using assms(3) by blast
  then show ?thesis
  proof cases
    case y
    have "toordinal a \<le> days_before_year (year a + 1)" using ord_bounds(2)[OF assms(1)] .
    also have "\<dots> \<le> days_before_year (year b)" using y by (intro dby_mono) simp
    also have "\<dots> < toordinal b" using ord_bounds(1)[OF assms(2)] .
    finally show ?thesis .
  next
    case m
    have "days_before_month (year a) (month a) + days_in_month (year a) (month a)
        \<le> days_before_month (year a) (month b)"
      using assms(1,2) m by (intro dbm_mono) (auto simp: valid_date_def)
    then show ?thesis
      using assms(1,2) m by (simp add: toordinal_def valid_date_def)
  next
    case d
    then show ?thesis by (simp add: toordinal_def)
  qed
qed

lemma date_le_iff_ord:
  assumes "valid_date a" "valid_date b"
  shows "date_le a b \<longleftrightarrow> toordinal a \<le> toordinal b"
proof
  assume "date_le a b"
  then consider "year a = year b \<and> month a = month b \<and> day a = day b"
    | "year a < year b \<or> (year a = year b \<and> (month a < month b \<or> (month a = month b \<and> day a < day b)))"
    unfolding date_le_def by linarith
  then show "toordinal a \<le> toordinal b"
  proof cases
    case 1
    then show ?thesis by (simp add: toordinal_def)
  next
    case 2
    then show ?thesis using toordinal_strict[OF assms] by simp
  qed
next
  assume le: "toordinal a \<le> toordinal b"
  show "date_le a b"
  proof (rule ccontr)
    assume "\<not> date_le a b"
    then have "year b < year a \<or> (year b = year a \<and> (month b < month a \<or> (month b = month a \<and> day b < day a)))"
      unfolding date_le_def by linarith
    then have "toordinal b < toordinal a" using toordinal_strict[OF assms(2,1)] by simp
    with le show False by simp
  qed
qed

subsection \<open>The loop over a range of valid dates\<close>

lemma loop_body_eq:
  "loop_body w self symbol timeframe d all_data st =
     (all_data @ List.map_filter (day_frame w self symbol timeframe) [d],
      st\<lparr>get_calls := get_calls st @ [get_url self timeframe symbol d],
         stdout := stdout st @ List.map_filter (day_log w self symbol timeframe) [d]\<rparr>)"
  by (simp add: loop_body_def day_frame_def day_log_def List.map_filter_def Let_def
      split: sum.splits option.splits)

lemma valid_le_max: "valid_date d \<Longrightarrow> date_le d date_max"
  using dim_bounds(2)[of "year d" "month d"]
  by (auto simp: valid_date_def date_le_def date_max_def mk_date_def)

lemma valid_date_max: "valid_date date_max"
  by (simp add: valid_date_def date_max_def mk_date_def days_in_month_def)

lemma toordinal_inj:
  assumes "valid_date a" "valid_date b" "toordinal a = toordinal b"
  shows "a = b"
proof -
  have "date_le a b" "date_le b a"
    using assms by (simp_all add: date_le_iff_ord)
  then have "year a = year b \<and> month a = month b \<and> day a = day b"
    unfolding date_le_def by linarith
  then show ?thesis by simp
qed

lemma day_loop_stop:
  "\<not> date_le c e \<Longrightarrow> day_loop w self symbol timeframe c e all_data st = (Inr all_data, st)"
  by (subst day_loop.simps) simp

lemma day_loop_step:
  "date_le c e \<Longrightarrow>
   day_loop w self symbol timeframe c e all_data st =
     (case add_one_day c of
        Inl x \<Rightarrow> (Inl x, snd (loop_body w self symbol timeframe c all_data st))
      | Inr c' \<Rightarrow> day_loop w self symbol timeframe c' e
                   (fst (loop_body w self symbol timeframe c all_data st))
                   (snd (loop_body w self symbol timeframe c all_data st)))"
  by (subst day_loop.simps) (simp split: prod.splits sum.splits)

lemma le_max_eq:
  assumes "valid_date e" "date_le date_max e"
  shows "e = date_max"
proof -
  have "toordinal e \<le> toordinal date_max"
    using valid_le_max[OF assms(1)] assms(1) valid_date_max date_le_iff_ord[of e date_max] by blast
  moreover have "toordinal date_max \<le> toordinal e"
    using assms valid_date_max date_le_iff_ord[of date_max e] by blast
  ultimately show ?thesis
    using toordinal_inj[OF assms(1) valid_date_max] by simp
qed

lemma day_loop_last:
  assumes "valid_date e" "date_le date_max e"
  shows "day_loop w self symbol timeframe date_max e all_data st =
           (Inl OverflowError, snd (loop_body w self symbol timeframe date_max all_data st))"
proof -
  have "add_one_day date_max = Inl OverflowError"
    using add_one_day_overflow[OF valid_date_max, of OverflowError] by simp
  then show ?thesis
    by (simp add: day_loop_step[OF assms(2)])
qed

lemma day_loop_next:
  assumes "date_le c e" "add_one_day c = Inr c'"
  shows "day_loop w self symbol timeframe c e all_data st =
        day_loop w self symbol timeframe c' e
          (fst (loop_body w self symbol timeframe c all_data st))
          (snd (loop_body w self symbol timeframe c all_data st))"
  using assms(2) by (simp add: day_loop_step[OF assms(1)])

lemma day_loop_run:
  assumes "valid_date e"
  shows "valid_date c \<Longrightarrow> n = nat (days_between c e + 1) \<Longrightarrow>
    day_loop w self symbol timeframe c e all_data st =
      ((if date_le c e \<and> e = date_max then Inl OverflowError
        else Inr (all_data @ List.map_filter (day_frame w self symbol timeframe) (days_from c n))),
       st\<lparr>get_calls := get_calls st @ map (get_url self timeframe symbol) (days_from c n),
          stdout := stdout st @ List.map_filter (day_log w self symbol timeframe) (days_from c n)\<rparr>)"
proof (induction n arbitrary: c all_data st)
  case 0
  then have "\<not> date_le c e"
    using assms by (simp add: date_le_iff_ord days_between_def)
  then show ?case by (simp add: day_loop_stop List.map_filter_def)
next
  case (Suc n)
  then have le: "date_le c e"
    using assms by (simp add: date_le_iff_ord days_between_def)
  show ?case
  proof (cases "add_one_day c")
    case (Inl x)
    then have cm: "c = date_max"
      using add_one_day_overflow[OF Suc.prems(1), of x] by blast
    have em: "e = date_max"
      using le_max_eq[OF assms] le cm by blast
    have ds: "days_from date_max (Suc n) = [date_max]"
      using Inl cm by simp
    have "date_le date_max date_max"
      using le cm em by blast
    then show ?thesis
      unfolding cm em ds
      by (simp add: day_loop_last[OF valid_date_max] loop_body_eq)
  next
    case (Inr c')
    have c': "valid_date c'" "toordinal c' = toordinal c + 1"
      using add_one_day_ord[OF Suc.prems(1) Inr] by simp_all
    have n: "n = nat (days_between c' e + 1)"
      using Suc.prems(2) c' by (simp add: days_between_def)
    have "e = date_max \<Longrightarrow> date_le c' e"
      using valid_le_max[OF c'(1)] by blast
    then have cond: "(date_le c' e \<and> e = date_max) = (e = date_max)"
      by blast
    have ds: "days_from c (Suc n) = c # days_from c' n"
      using Inr by simp
    show ?thesis
      unfolding ds day_loop_next[OF le Inr] Suc.IH[OF c'(1) n] cond
      using le by (simp add: loop_body_eq List.map_filter_def)
  qed
qed

lemma days_from_ord:
  "valid_date c \<Longrightarrow> toordinal c + int n \<le> toordinal date_max + 1 \<Longrightarrow>
   map toordinal (days_from c n) = [toordinal c..toordinal c + int n - 1] \<and>
   list_all valid_date (days_from c n)"
proof (induction n arbitrary: c)
  case 0
  then show ?case by simp
next
  case (Suc n)
  show ?case
  proof (cases "add_one_day c")
    case (Inl x)
    then have "c = date_max"
      using add_one_day_overflow[OF Suc.prems(1), of x] by blast
    then have "n = 0" using Suc.prems(2) by simp
    then show ?thesis using Inl Suc.prems(1) by simp
  next
    case (Inr c')
    have c': "valid_date c'" "toordinal c' = toordinal c + 1"
      using add_one_day_ord[OF Suc.prems(1) Inr] by simp_all
    have "toordinal c' + int n \<le> toordinal date_max + 1"
      using Suc.prems(2) c'(2) by simp
    from Suc.IH[OF c'(1) this] show ?thesis
      using Inr Suc.prems(1) c'(2) by (simp add: upto_rec1[of "toordinal c"] add.commute)
  qed
qed

lemma length_days_from:
  "valid_date c \<Longrightarrow> toordinal c + int n \<le> toordinal date_max + 1 \<Longrightarrow> length (days_from c n) = n"
proof -
  assume "valid_date c" "toordinal c + int n \<le> toordinal date_max + 1"
  then have "map toordinal (days_from c n) = [toordinal c..toordinal c + int n - 1]"
    using days_from_ord[of c n] by blast
  then have "length (map toordinal (days_from c n)) = length [toordinal c..toordinal c + int n - 1]"
    by simp
  then show ?thesis by simp
qed

lemma ord_le_max: "valid_date d \<Longrightarrow> toordinal d \<le> toordinal date_max"
  using valid_le_max[of d] valid_date_max date_le_iff_ord[of d date_max] by blast

lemma date_range_ord:
  assumes "valid_date s" "valid_date e"
  shows "map toordinal (date_range s e) = [toordinal s..toordinal e]"
    and "list_all valid_date (date_range s e)"
    and "length (date_range s e) = nat (days_between s e + 1)"
proof -
  have room: "toordinal s + int (nat (days_between s e + 1)) \<le> toordinal date_max + 1"
    using ord_le_max[OF assms(1)] ord_le_max[OF assms(2)] by (simp add: days_between_def)
  show "list_all valid_date (date_range s e)"
    using days_from_ord[OF assms(1) room] by (simp add: date_range_def)
  show "length (date_range s e) = nat (days_between s e + 1)"
    using length_days_from[OF assms(1) room] by (simp add: date_range_def)
  show "map toordinal (date_range s e) = [toordinal s..toordinal e]"
  proof (cases "toordinal s \<le> toordinal e")
    case True
    then show ?thesis
      using days_from_ord[OF assms(1) room] by (simp add: date_range_def days_between_def)
  next
    case False
    then show ?thesis
      by (simp add: date_range_def days_between_def)
  qed
qed

lemma day_loop_range:
  assumes "valid_date s" "valid_date e"
  shows "day_loop w self symbol timeframe s e all_data st =
      ((if date_le s e \<and> e = date_max then Inl OverflowError
        else Inr (all_data @ List.map_filter (day_frame w self symbol timeframe) (date_range s e))),
       st\<lparr>get_calls := get_calls st @ map (get_url self timeframe symbol) (date_range s e),
          stdout := stdout st @ List.map_filter (day_log w self symbol timeframe) (date_range s e)\<rparr>)"
  unfolding date_range_def
  by (rule day_loop_run[OF assms(2) assms(1) refl])

subsection \<open>The steps after the loop\<close>

lemma to_datetime_series_length:
  "to_datetime_series w cs = Inr ts \<Longrightarrow> length ts = length cs"
  by (induction cs arbitrary: ts) (auto split: sum.splits)

lemma to_datetime_series_nth:
  "to_datetime_series w cs = Inr ts \<Longrightarrow> i < length cs \<Longrightarrow> to_datetime w (cs ! i) = Inr (ts ! i)"
proof (induction cs arbitrary: ts i)
  case Nil
  then show ?case by simp
next
  case (Cons c cs)
  then show ?case by (cases i) (auto split: sum.splits)
qed

lemma length_stacked:
  "length (stacked n dfs) = sum_list (map (\<lambda>f. length (rows f)) dfs)"
  by (induction dfs) (simp_all add: stacked_def)

lemma length_cast_rows: "length (cast_rows w n R) = length R"
  by (simp add: cast_rows_def)

lemma cast_rows_width: "r \<in> set (cast_rows w n R) \<Longrightarrow> length r = n"
  by (auto simp: cast_rows_def)

lemma cast_rows_nth:
  "i < length R \<Longrightarrow> j < n \<Longrightarrow>
   cast_rows w n R ! i ! j = concat_cast w (column_at j R) (cell_at j (R ! i))"
  by (simp add: cast_rows_def)

lemma length_combined_rows:
  "length (combined_rows w dfs) = sum_list (map (\<lambda>f. length (rows f)) dfs)"
  by (simp add: combined_rows_def length_cast_rows length_stacked)

lemma combined_rows_width: "r \<in> set (combined_rows w dfs) \<Longrightarrow> length r = widest dfs"
  unfolding combined_rows_def by (rule cast_rows_width)

lemma reindex_index:
  assumes "length dts = length R" "\<forall>r \<in> set R. r \<noteq> []"
  shows "column_at 0 (map2 (\<lambda>r c. r[0 := c]) R dts) = dts"
  using assms
proof (induction dts R rule: list_induct2)
  case Nil
  show ?case by (simp add: column_at_def)
next
  case (Cons d dts r R)
  then show ?case by (cases r) (simp_all add: cell_at_def column_at_def)
qed

lemma reindex_data:
  assumes "length dts = length R" "\<forall>r \<in> set R. r \<noteq> []"
  shows "map (remove_nth 0) (map2 (\<lambda>r c. r[0 := c]) R dts) = map tl R"
  using assms
proof (induction dts R rule: list_induct2)
  case Nil
  show ?case by simp
next
  case (Cons d dts r R)
  then show ?case by (cases r) (simp_all add: remove_nth_def)
qed

lemma col_pos_timestamp: "col_pos ''timestamp'' COLUMN_NAMES = Some 0"
  by (simp add: COLUMN_NAMES_def)

lemma length_COLUMN_NAMES: "length COLUMN_NAMES = 12"
  by (simp add: COLUMN_NAMES_def)

lemma tl_COLUMN_NAMES: "tl COLUMN_NAMES =
  [''open'', ''high'', ''low'', ''close'', ''volume'', ''close_time'', ''quote_volume'',
   ''trades'', ''taker_buy_base'', ''taker_buy_quote'', ''ignore'']"
  by (simp add: COLUMN_NAMES_def)

lemma finish_empty:
  "finish w self symbol timeframe s e [] st = (Inr None, st)"
  by (simp add: finish_def)

lemma finish_mismatch:
  assumes "all_data \<noteq> []" "widest all_data \<noteq> 12"
  shows "finish w self symbol timeframe s e all_data st =
    (Inl (PyExc ''ValueError''
            (''Length mismatch: Expected axis has '' @ str_nat (widest all_data) @
             '' elements, new values have 12 elements'')), st)"
proof -
  have "str_nat 12 = ''12''"
    by (simp add: str_nat.simps[of 12] str_nat.simps[of "Suc 0"] digit_char_def)
  then show ?thesis
    using assms by (simp add: finish_def pd_concat_def set_columns_def length_COLUMN_NAMES)
qed

lemma finish_named:
  assumes "all_data \<noteq> []" "widest all_data = 12"
  shows "finish w self symbol timeframe s e all_data st =
    (case to_datetime_series w (column_at 0 (combined_rows w all_data)) of
       Inl x \<Rightarrow> (Inl x, st)
     | Inr dts \<Rightarrow>
         (case write_error w (output_path self symbol timeframe s e) of
            Some x \<Rightarrow> (Inl x, st)
          | None \<Rightarrow>
              (Inr (Some \<lparr>index = NamedIndex ''timestamp'' dts, columns = tl COLUMN_NAMES,
                          data = map tl (combined_rows w all_data)\<rparr>),
               st\<lparr>files := (files st)(output_path self symbol timeframe s e \<mapsto>
                       to_csv w \<lparr>index = NamedIndex ''timestamp'' dts, columns = tl COLUMN_NAMES,
                          data = map tl (combined_rows w all_data)\<rparr>),
                  stdout := stdout st @ [saved_msg (output_path self symbol timeframe s e)]\<rparr>)))"
proof (cases "to_datetime_series w (column_at 0 (combined_rows w all_data))")
  case (Inl x)
  then show ?thesis
    using assms
    by (simp add: finish_def pd_concat_def set_columns_def getitem_def col_pos_timestamp
        length_COLUMN_NAMES)
next
  case (Inr dts)
  have len: "length dts = length (combined_rows w all_data)"
    using to_datetime_series_length[OF Inr] by (simp add: column_at_def)
  have ne: "\<forall>r \<in> set (combined_rows w all_data). r \<noteq> []"
  proof
    fix r
    assume "r \<in> set (combined_rows w all_data)"
    then have "length r = 12"
      using combined_rows_width[of r w all_data] assms(2) by simp
    then show "r \<noteq> []" by auto
  qed
  have cols: "remove_nth 0 COLUMN_NAMES = tl COLUMN_NAMES"
    by (simp add: remove_nth_def COLUMN_NAMES_def)
  show ?thesis
    using assms Inr
    by (simp add: finish_def pd_concat_def set_columns_def getitem_def setitem_def set_index_def
        col_pos_timestamp length_COLUMN_NAMES cols reindex_index[OF len ne, unfolded map_map]
        reindex_data[OF len ne, unfolded map_map] Let_def split: option.splits)
qed

subsection \<open>Dates as text\<close>

lemma digit_char_0: "digit_char 0 = CHR ''0''"
  by (simp add: digit_char_def)

lemma digit_char_mod: "digit_char (n mod 10) = digit_char n"
  by (simp add: digit_char_def)

lemma str_nat_1: "n < 10 \<Longrightarrow> str_nat n = [digit_char n]"
  by (simp add: str_nat.simps)

lemma str_nat_2:
  "10 \<le> n \<Longrightarrow> n < 100 \<Longrightarrow> str_nat n = [digit_char (n div 10), digit_char n]"
  by (subst str_nat.simps) (simp add: str_nat_1 digit_char_mod)

lemma str_nat_3:
  "100 \<le> n \<Longrightarrow> n < 1000 \<Longrightarrow>
   str_nat n = [digit_char (n div 100), digit_char (n div 10), digit_char n]"
  by (subst str_nat.simps) (simp add: str_nat_2 digit_char_mod div_mult2_eq[symmetric])

lemma str_nat_4:
  "1000 \<le> n \<Longrightarrow> n < 10000 \<Longrightarrow>
   str_nat n = [digit_char (n div 1000), digit_char (n div 100), digit_char (n div 10), digit_char n]"
  by (subst str_nat.simps) (simp add: str_nat_3 digit_char_mod div_mult2_eq[symmetric])

lemma replicate_2: "replicate 2 c = [c, c]"
  by (simp add: numeral_2_eq_2)

lemma replicate_3: "replicate 3 c = [c, c, c]"
  by (simp add: numeral_3_eq_3)

lemma zfill_2:
  assumes "n < 100"
  shows "zfill 2 (str_nat n) = [digit_char (n div 10), digit_char n]"
proof (cases "n < 10")
  case True
  then show ?thesis by (simp add: zfill_def str_nat_1 digit_char_0)
next
  case False
  then show ?thesis using assms by (simp add: zfill_def str_nat_2)
qed

lemma zfill_4:
  assumes "n < 10000"
  shows "zfill 4 (str_nat n) =
    [digit_char (n div 1000), digit_char (n div 100), digit_char (n div 10), digit_char n]"
proof -
  consider "n < 10" | "10 \<le> n" "n < 100" | "100 \<le> n" "n < 1000" | "1000 \<le> n"
    by linarith
  then show ?thesis
  proof cases
    case 1
    then show ?thesis by (simp add: zfill_def str_nat_1 digit_char_0 replicate_2 replicate_3)
  next
    case 2
    then show ?thesis by (simp add: zfill_def str_nat_2 digit_char_0 replicate_2 replicate_3)
  next
    case 3
    then show ?thesis by (simp add: zfill_def str_nat_3 digit_char_0 replicate_2 replicate_3)
  next
    case 4
    then show ?thesis using assms by (simp add: zfill_def str_nat_4)
  qed
qed

lemma fmt_valid:
  assumes "valid_date d"
  shows "fmt_0d 4 (year d) @ ''-'' @ fmt_0d 2 (month d) @ ''-'' @ fmt_0d 2 (day d) = iso_digits d"
proof -
  have "day d \<le> 31"
    using assms dim_bounds(2)[of "year d" "month d"] by (simp add: valid_date_def)
  then have "nat (year d) < 10000" "nat (month d) < 100" "nat (day d) < 100"
    "0 \<le> year d" "0 \<le> month d" "0 \<le> day d"
    using assms unfolding valid_date_def by linarith+
  then show ?thesis
    by (simp add: fmt_0d_def zfill_2 zfill_4 iso_digits_def Let_def)
qed

lemma isoformat_valid: "valid_date d \<Longrightarrow> isoformat d = iso_digits d"
  by (simp only: isoformat_def fmt_valid)

lemma strftime_four_digit_year:
  assumes "valid_date d" "1000 \<le> year d"
  shows "strftime_Y_m_d d = iso_digits d"
proof -
  have y: "1000 \<le> nat (year d)" "nat (year d) < 10000"
    using assms unfolding valid_date_def by linarith+
  have "str_int (year d) = fmt_0d 4 (year d)"
    using assms(2) y by (simp add: str_int_def fmt_0d_def zfill_def str_nat_4)
  then show ?thesis
    using fmt_valid[OF assms(1)] by (simp only: strftime_Y_m_d_def)
qed

subsection \<open>The URL builder\<close>

lemma get_url_four_digit_year:
  assumes "valid_date dt" "1000 \<le> year dt"
  shows "get_url self timeframe symbol dt =
           kline_url_prefix self @ ''/'' @ symbol @ ''/'' @ timeframe @ ''/'' @
           symbol @ ''-'' @ timeframe @ ''-'' @ iso_digits dt @ ''.zip''"
  using assms by (simp add: get_url_def strftime_four_digit_year)

lemma kline_url_prefix_init:
  "kline_url_prefix (init bp) = ''https://data.binance.vision/data/spot/daily/klines''"
  by (simp add: init_def)

text \<open>
  C6. \<^verbatim>\<open>get_url\<close> is a function of its arguments alone (it has no state and no error
  result), and for a date from the year 1000 on it returns the URL of the claim
  (\<open>get_url_four_digit_year\<close>). For an earlier year it does not: the year of 0999-01-01
  is written \<^verbatim>\<open>999\<close>, where the claim has the zero-padded \<^verbatim>\<open>0999\<close> that \<^verbatim>\<open>str\<close> of
  the same date gives.
\<close>

theorem get_url_year_999:
  "valid_date (mk_date 999 1 1) \<and>
   get_url (init ''data'') ''1h'' ''BTCUSDT'' (mk_date 999 1 1) =
     ''https://data.binance.vision/data/spot/daily/klines/BTCUSDT/1h/BTCUSDT-1h-999-01-01.zip'' \<and>
   isoformat (mk_date 999 1 1) = ''0999-01-01''"
  by (simp add: valid_date_def days_in_month_def is_leap_def get_url_def init_def
      strftime_Y_m_d_def isoformat_def str_int_def fmt_0d_def zfill_def str_nat.simps
      digit_char_def mk_date_def)

lemma get_url_2024:
  "get_url (init ''data'') ''1h'' ''BTCUSDT'' (mk_date 2024 1 1) =
     ''https://data.binance.vision/data/spot/daily/klines/BTCUSDT/1h/BTCUSDT-1h-2024-01-01.zip''"
  by (simp add: get_url_def init_def strftime_Y_m_d_def str_int_def fmt_0d_def zfill_def
      str_nat.simps digit_char_def mk_date_def)

subsection \<open>The call as a whole\<close>

lemma download_overflow:
  assumes "valid_date s" "valid_date e" "date_le s e" "e = date_max"
  shows "download_data w self symbol timeframe s e st =
       (Inl OverflowError,
        st\<lparr>get_calls := get_calls st @ map (get_url self timeframe symbol) (date_range s e),
           stdout := stdout st @ List.map_filter (day_log w self symbol timeframe) (date_range s e)\<rparr>)"
proof -
  have "day_loop w self symbol timeframe s e [] st =
       (Inl OverflowError,
        st\<lparr>get_calls := get_calls st @ map (get_url self timeframe symbol) (date_range s e),
           stdout := stdout st @ List.map_filter (day_log w self symbol timeframe) (date_range s e)\<rparr>)"
    using assms(3,4) by (subst day_loop_range[OF assms(1,2)], subst if_P) (blast, rule refl)
  then show ?thesis
    by (simp only: download_data_def prod.case sum.case)
qed

lemma download_finish:
  assumes "valid_date s" "valid_date e" "\<not> (date_le s e \<and> e = date_max)"
  shows "download_data w self symbol timeframe s e st =
     finish w self symbol timeframe s e (day_frames w self symbol timeframe s e)
        (st\<lparr>get_calls := get_calls st @ map (get_url self timeframe symbol) (date_range s e),
           stdout := stdout st @ List.map_filter (day_log w self symbol timeframe) (date_range s e)\<rparr>)"
proof -
  have "day_loop w self symbol timeframe s e [] st =
       (Inr (day_frames w self symbol timeframe s e),
        st\<lparr>get_calls := get_calls st @ map (get_url self timeframe symbol) (date_range s e),
           stdout := stdout st @ List.map_filter (day_log w self symbol timeframe) (date_range s e)\<rparr>)"
    using assms(3) by (subst day_loop_range[OF assms(1,2)], subst if_not_P) (blast, simp add: day_frames_def)
  then show ?thesis
    by (simp only: download_data_def prod.case sum.case)
qed

lemma finish_cases:
  obtains (empty) "all_data = []"
      "finish w self symbol timeframe s e all_data st = (Inr None, st)"
  | (mismatch) x where "all_data \<noteq> []" "widest all_data \<noteq> 12"
      "finish w self symbol timeframe s e all_data st = (Inl x, st)"
  | (convert) x where "all_data \<noteq> []" "widest all_data = 12"
      "finish w self symbol timeframe s e all_data st = (Inl x, st)"
  | (unwritten) dts x where "all_data \<noteq> []" "widest all_data = 12"
      "to_datetime_series w (column_at 0 (combined_rows w all_data)) = Inr dts"
      "write_error w (output_path self symbol timeframe s e) = Some x"
      "finish w self symbol timeframe s e all_data st = (Inl x, st)"
  | (table) dts where "all_data \<noteq> []" "widest all_data = 12"
      "to_datetime_series w (column_at 0 (combined_rows w all_data)) = Inr dts"
      "write_error w (output_path self symbol timeframe s e) = None"
      "finish w self symbol timeframe s e all_data st =
         (Inr (Some \<lparr>index = NamedIndex ''timestamp'' dts, columns = tl COLUMN_NAMES,
                     data = map tl (combined_rows w all_data)\<rparr>),
          st\<lparr>files := (files st)(output_path self symbol timeframe s e \<mapsto>
                  to_csv w \<lparr>index = NamedIndex ''timestamp'' dts, columns = tl COLUMN_NAMES,
                     data = map tl (combined_rows w all_data)\<rparr>),
             stdout := stdout st @ [saved_msg (output_path self symbol timeframe s e)]\<rparr>)"
proof (cases "all_data = []")
  case True
  then show ?thesis using empty finish_empty by blast
next
  case ne: False
  show ?thesis
  proof (cases "widest all_data = 12")
    case False
    then show ?thesis using mismatch[OF ne False] finish_mismatch[OF ne False] by blast
  next
    case True
    show ?thesis
    proof (cases "to_datetime_series w (column_at 0 (combined_rows w all_data))")
      case (Inl x)
      then show ?thesis using convert[OF ne True] finish_named[OF ne True, of w] by simp
    next
      case (Inr dts)
      show ?thesis
      proof (cases "write_error w (output_path self symbol timeframe s e)")
        case None
        then show ?thesis
          using table[OF ne True Inr None] finish_named[OF ne True, of w] Inr by simp
      next
        case (Some x)
        then show ?thesis
          using unwritten[OF ne True Inr Some] finish_named[OF ne True, of w] Inr by simp
      qed
    qed
  qed
qed

lemma finish_files:
  "files (snd (finish w self symbol timeframe s e all_data st)) =
     (case fst (finish w self symbol timeframe s e all_data st) of
        Inr (Some df) \<Rightarrow> (files st)(output_path self symbol timeframe s e \<mapsto> to_csv w df)
      | Inr None \<Rightarrow> files st
      | Inl x \<Rightarrow> files st)"
  by (cases rule: finish_cases[of all_data w self symbol timeframe s e st]) simp_all

lemma finish_fst_indep:
  "fst (finish w self symbol timeframe s e all_data st) =
   fst (finish w self symbol timeframe s e all_data st')"
  by (simp add: finish_def Let_def split: sum.splits option.splits)

lemma loop_body_files:
  "files (snd (loop_body w self symbol timeframe d all_data st)) = files st"
  by (simp add: loop_body_eq)

lemma loop_body_fst_indep:
  "fst (loop_body w self symbol timeframe d all_data st) =
   fst (loop_body w self symbol timeframe d all_data st')"
  by (simp add: loop_body_eq)

lemma day_loop_files:
  "files (snd (day_loop w self symbol timeframe c e all_data st)) = files st"
proof (induction w self symbol timeframe c e all_data st rule: day_loop.induct)
  case (1 w self symbol timeframe c e all_data st)
  show ?case
  proof (cases "date_le c e")
    case False
    then show ?thesis by (simp add: day_loop_stop)
  next
    case True
    show ?thesis
    proof (cases "add_one_day c")
      case (Inl x)
      then show ?thesis by (simp add: day_loop_step[OF True] loop_body_files)
    next
      case (Inr c')
      have "files (snd (day_loop w self symbol timeframe c' e
                (fst (loop_body w self symbol timeframe c all_data st))
                (snd (loop_body w self symbol timeframe c all_data st)))) =
            files (snd (loop_body w self symbol timeframe c all_data st))"
        by (rule "1.IH"[OF True _ Inr]) simp
      then show ?thesis
        using Inr by (simp add: day_loop_step[OF True] loop_body_files)
    qed
  qed
qed

lemma day_loop_fst_indep:
  "fst (day_loop w self symbol timeframe c e all_data st) =
   fst (day_loop w self symbol timeframe c e all_data st2)"
proof (induction w self symbol timeframe c e all_data st arbitrary: st2 rule: day_loop.induct)
  case (1 w self symbol timeframe c e all_data st)
  show ?case
  proof (cases "date_le c e")
    case False
    then show ?thesis by (simp add: day_loop_stop)
  next
    case True
    show ?thesis
    proof (cases "add_one_day c")
      case (Inl x)
      then show ?thesis by (simp add: day_loop_step[OF True])
    next
      case (Inr c')
      have "fst (day_loop w self symbol timeframe c' e
                (fst (loop_body w self symbol timeframe c all_data st))
                (snd (loop_body w self symbol timeframe c all_data st))) =
            fst (day_loop w self symbol timeframe c' e
                (fst (loop_body w self symbol timeframe c all_data st))
                (snd (loop_body w self symbol timeframe c all_data st2)))"
        by (rule "1.IH"[OF True _ Inr]) simp
      then show ?thesis
        using Inr loop_body_fst_indep[of w self symbol timeframe c all_data st st2]
        by (simp add: day_loop_step[OF True])
    qed
  qed
qed

subsection \<open>Running the definitions\<close>

lemmas date_eval = valid_date_def mk_date_def date_max_def days_in_month_def is_leap_def
  date_le_def add_one_day_def toordinal_def days_before_year_def days_before_month_def
  days_before_month_table_def days_between_def date_range_def

lemmas text_eval = get_url_def init_def strftime_Y_m_d_def isoformat_def fmt_0d_def zfill_def
  str_int_def str_nat.simps digit_char_def no_data_msg_def error_msg_def

lemmas demo_eval = demo_world_def demo_remote_def demo_url_def demo_read_csv_def empty_system_def
  fetch_day_def loop_body_def day_frame_def day_log_def IndexError_def OverflowError_def

lemma date_range_empty:
  assumes "valid_date s" "valid_date e" "\<not> date_le s e"
  shows "date_range s e = []"
proof -
  have "toordinal e < toordinal s"
    using assms date_le_iff_ord[of s e] by simp
  then have "length (date_range s e) = 0"
    using date_range_ord(3)[OF assms(1,2)] by (simp add: days_between_def)
  then show ?thesis by simp
qed

subsection \<open>An empty range\<close>

text \<open>
  C9. When the start date is after the end date (\<^verbatim>\<open>start_date <= end_date\<close> is false),
  the loop body never runs: the call returns \<^verbatim>\<open>None\<close> and leaves the files, the
  printed lines and the list of requested URLs as they were. It does not raise.
\<close>

theorem empty_range_returns_none:
  assumes "\<not> date_le start_date end_date"
  shows "download_data w self symbol timeframe start_date end_date st = (Inr None, st)"
  using assms by (simp add: download_data_def day_loop_stop finish_empty)

theorem empty_range_returns_none_witness:
  "\<not> date_le (mk_date 2024 1 3) (mk_date 2024 1 1) \<and>
   download_data demo_world (init ''data'') ''BTCUSDT'' ''1h'' (mk_date 2024 1 3) (mk_date 2024 1 1)
     empty_system = (Inr None, \<lparr>files = Map.empty, stdout = [], get_calls = []\<rparr>)"
proof -
  have n: "\<not> date_le (mk_date 2024 1 3) (mk_date 2024 1 1)"
    by (simp add: date_le_def mk_date_def)
  show ?thesis
    using n empty_range_returns_none[OF n, of demo_world "init ''data''" "''BTCUSDT''" "''1h''" empty_system]
    by (simp add: empty_system_def)
qed

subsection \<open>The days the loop visits\<close>

lemma day_loop_visits:
  assumes "valid_date start_date" "valid_date end_date" "date_le start_date end_date"
  shows "get_calls (snd (day_loop w self symbol timeframe start_date end_date all_data st)) =
           get_calls st @ map (get_url self timeframe symbol) (date_range start_date end_date) \<and>
         length (date_range start_date end_date) = nat (days_between start_date end_date + 1) \<and>
         map toordinal (date_range start_date end_date) =
           [toordinal start_date..toordinal end_date] \<and>
         distinct (date_range start_date end_date) \<and>
         (end_date \<noteq> date_max \<longrightarrow>
            fst (day_loop w self symbol timeframe start_date end_date all_data st) =
              Inr (all_data @ List.map_filter (day_frame w self symbol timeframe)
                                (date_range start_date end_date)))"
proof -
  have ords: "map toordinal (date_range start_date end_date) =
      [toordinal start_date..toordinal end_date]"
    by (rule date_range_ord(1)[OF assms(1,2)])
  have "distinct (map toordinal (date_range start_date end_date))"
    unfolding ords by simp
  then have dist: "distinct (date_range start_date end_date)"
    by (simp add: distinct_map)
  note run = day_loop_range[OF assms(1,2), of w self symbol timeframe all_data st]
  have calls: "get_calls (snd (day_loop w self symbol timeframe start_date end_date all_data st)) =
           get_calls st @ map (get_url self timeframe symbol) (date_range start_date end_date)"
    unfolding run by simp
  have ok: "end_date \<noteq> date_max \<longrightarrow>
            fst (day_loop w self symbol timeframe start_date end_date all_data st) =
              Inr (all_data @ List.map_filter (day_frame w self symbol timeframe)
                                (date_range start_date end_date))"
    unfolding run by simp
  show ?thesis
    using calls date_range_ord(3)[OF assms(1,2)] ords dist ok by blast
qed

text \<open>
  C4. For valid dates with the start not after the end, the loop requests the URLs of the
  days of the range in ascending order, each once, one calendar day apart,
  \<^verbatim>\<open>(end_date - start_date).days + 1\<close> of them, and for an end date before \<^verbatim>\<open>date.max\<close>
  it ends when the current day exceeds the end date (\<open>day_loop_visits\<close>). For the end
  date \<^verbatim>\<open>date.max\<close> it does not end that way: after the body has run for 9999-12-31,
  \<^verbatim>\<open>current_date += timedelta(days=1)\<close> raises \<^verbatim>\<open>OverflowError\<close> outside the \<^verbatim>\<open>try\<close>
  block, and the call raises.
\<close>

theorem day_loop_overflow_at_date_max:
  "valid_date date_max \<and> date_le date_max date_max \<and>
   day_loop demo_world (init ''data'') ''BTCUSDT'' ''1h'' date_max date_max [] empty_system =
     (Inl OverflowError,
      \<lparr>files = Map.empty,
       stdout = [''No data available for 9999-12-31 - Binance is probably having a coffee break''],
       get_calls = [''https://data.binance.vision/data/spot/daily/klines/BTCUSDT/1h/BTCUSDT-1h-9999-12-31.zip'']\<rparr>) \<and>
   fst (download_data demo_world (init ''data'') ''BTCUSDT'' ''1h'' date_max date_max empty_system) =
     Inl OverflowError"
  by (simp add: download_data_def day_loop.simps date_eval demo_eval text_eval)

lemma day_frames_None:
  "list_all (\<lambda>d. day_frame w self symbol timeframe d = None) ds \<Longrightarrow>
   List.map_filter (day_frame w self symbol timeframe) ds = []"
  by (induction ds) (simp_all add: List.map_filter_def)

lemma day_frames_nonempty_le:
  assumes "valid_date s" "valid_date e" "day_frames w self symbol timeframe s e \<noteq> []"
  shows "date_le s e"
proof (rule ccontr)
  assume "\<not> date_le s e"
  then have "date_range s e = []"
    by (rule date_range_empty[OF assms(1,2)])
  then show False
    using assms(3) by (simp add: day_frames_def List.map_filter_def)
qed

subsection \<open>Every day fails\<close>

text \<open>
  C2. A day fails when it yields no frame: its status is not 200, or the \<^verbatim>\<open>try\<close> block
  raises (also on a file of zero rows, for which \<^verbatim>\<open>read_csv\<close> raises). For valid dates, if
  every day of the range fails, then after the loop the accumulator is empty, the call
  returns \<^verbatim>\<open>None\<close> in the state the loop left, and the files are as before the call.
\<close>

theorem all_days_fail_returns_none:
  assumes "valid_date start_date" "valid_date end_date"
    and "list_all (\<lambda>d. day_frame w self symbol timeframe d = None)
           (date_range start_date end_date)"
    and "day_loop w self symbol timeframe start_date end_date [] st = (Inr all_data, st1)"
  shows "all_data = [] \<and>
         download_data w self symbol timeframe start_date end_date st = (Inr None, st1) \<and>
         files st1 = files st"
proof -
  have none: "List.map_filter (day_frame w self symbol timeframe)
      (date_range start_date end_date) = []"
    by (rule day_frames_None[OF assms(3)])
  have "fst (day_loop w self symbol timeframe start_date end_date [] st) = Inr all_data"
    using assms(4) by simp
  then have "all_data = []"
    unfolding day_loop_range[OF assms(1,2)] none by (simp split: if_splits)
  moreover from this have
    "download_data w self symbol timeframe start_date end_date st = (Inr None, st1)"
    using assms(4) by (simp add: download_data_def finish_empty)
  moreover have "files st1 = files st"
    using day_loop_files[of w self symbol timeframe start_date end_date "[]" st] assms(4)
    by simp
  ultimately show ?thesis by blast
qed

theorem all_days_fail_returns_none_witness:
  "valid_date (mk_date 2024 1 7) \<and> valid_date (mk_date 2024 1 8) \<and>
   list_all (\<lambda>d. day_frame demo_world (init ''data'') ''BTCUSDT'' ''1h'' d = None)
     (date_range (mk_date 2024 1 7) (mk_date 2024 1 8)) \<and>
   fst (day_loop demo_world (init ''data'') ''BTCUSDT'' ''1h''
          (mk_date 2024 1 7) (mk_date 2024 1 8) [] empty_system) = Inr [] \<and>
   fst (download_data demo_world (init ''data'') ''BTCUSDT'' ''1h''
          (mk_date 2024 1 7) (mk_date 2024 1 8) empty_system) = Inr None \<and>
   files (snd (download_data demo_world (init ''data'') ''BTCUSDT'' ''1h''
          (mk_date 2024 1 7) (mk_date 2024 1 8) empty_system)) = Map.empty"
proof -
  let ?L = "day_loop demo_world (init ''data'') ''BTCUSDT'' ''1h''
          (mk_date 2024 1 7) (mk_date 2024 1 8) [] empty_system"
  have v: "valid_date (mk_date 2024 1 7)" "valid_date (mk_date 2024 1 8)"
    by (simp_all add: date_eval)
  have r: "date_range (mk_date 2024 1 7) (mk_date 2024 1 8) = [mk_date 2024 1 7, mk_date 2024 1 8]"
    by (simp add: date_eval eval_nat_numeral)
  have f: "list_all (\<lambda>d. day_frame demo_world (init ''data'') ''BTCUSDT'' ''1h'' d = None)
     (date_range (mk_date 2024 1 7) (mk_date 2024 1 8))"
    unfolding r by (simp add: demo_eval text_eval mk_date_def)
  have l: "fst ?L = Inr []"
    by (simp add: day_loop.simps date_eval demo_eval text_eval)
  then have p: "?L = (Inr [], snd ?L)"
    by (simp add: prod_eq_iff)
  have e: "files empty_system = Map.empty"
    by (simp add: empty_system_def)
  show ?thesis
    using v f l all_days_fail_returns_none[OF v f p] unfolding e by simp
qed

subsection \<open>A column count other than 12\<close>

text \<open>
  C10. A day whose frame does not have 12 columns is not skipped. If at least one day
  yields a frame and the widest frame (the column count of the concatenation) does not
  have 12 columns, the call ends with an exception and the files are as before: the
  \<^verbatim>\<open>ValueError\<close> of the column assignment or, for a range ending at \<^verbatim>\<open>date.max\<close>,
  the \<^verbatim>\<open>OverflowError\<close> of the loop. No table is returned.
\<close>

theorem column_mismatch_raises:
  assumes "valid_date start_date" "valid_date end_date"
    and "day_frames w self symbol timeframe start_date end_date \<noteq> []"
    and "widest (day_frames w self symbol timeframe start_date end_date) \<noteq> 12"
  shows "fst (download_data w self symbol timeframe start_date end_date st) =
           Inl (if end_date = date_max then OverflowError
                else PyExc ''ValueError''
                  (''Length mismatch: Expected axis has '' @
                   str_nat (widest (day_frames w self symbol timeframe start_date end_date)) @
                   '' elements, new values have 12 elements'')) \<and>
         files (snd (download_data w self symbol timeframe start_date end_date st)) = files st"
proof (cases "end_date = date_max")
  case True
  have le: "date_le start_date end_date"
    by (rule day_frames_nonempty_le[OF assms(1,2,3)])
  have "fst (download_data w self symbol timeframe start_date end_date st) = Inl OverflowError"
    and "files (snd (download_data w self symbol timeframe start_date end_date st)) = files st"
    unfolding download_overflow[OF assms(1,2) le True] by simp_all
  then show ?thesis
    unfolding if_P[OF True] by blast
next
  case False
  then show ?thesis
    by (simp add: download_finish[OF assms(1,2)] finish_mismatch[OF assms(3,4)])
qed

theorem column_mismatch_raises_witness:
  "valid_date (mk_date 2024 1 6) \<and>
   day_frames demo_world (init ''data'') ''BTCUSDT'' ''1h'' (mk_date 2024 1 6) (mk_date 2024 1 6) =
     [\<lparr>ncols = 11, rows = [replicate 11 (Integer 1)]\<rparr>] \<and>
   fst (download_data demo_world (init ''data'') ''BTCUSDT'' ''1h''
          (mk_date 2024 1 6) (mk_date 2024 1 6) empty_system) =
     Inl (PyExc ''ValueError''
            ''Length mismatch: Expected axis has 11 elements, new values have 12 elements'') \<and>
   files (snd (download_data demo_world (init ''data'') ''BTCUSDT'' ''1h''
          (mk_date 2024 1 6) (mk_date 2024 1 6) empty_system)) = Map.empty"
proof -
  have v: "valid_date (mk_date 2024 1 6)"
    by (simp add: date_eval)
  have r: "date_range (mk_date 2024 1 6) (mk_date 2024 1 6) = [mk_date 2024 1 6]"
    by (simp add: date_eval eval_nat_numeral)
  have f: "day_frames demo_world (init ''data'') ''BTCUSDT'' ''1h'' (mk_date 2024 1 6) (mk_date 2024 1 6) =
     [\<lparr>ncols = 11, rows = [replicate 11 (Integer 1)]\<rparr>]"
    unfolding day_frames_def r
    by (simp add: List.map_filter_def demo_eval text_eval mk_date_def)
  have ne: "day_frames demo_world (init ''data'') ''BTCUSDT'' ''1h'' (mk_date 2024 1 6) (mk_date 2024 1 6) \<noteq> []"
    unfolding f by simp
  have w: "widest (day_frames demo_world (init ''data'') ''BTCUSDT'' ''1h'' (mk_date 2024 1 6) (mk_date 2024 1 6)) \<noteq> 12"
    unfolding f by (simp add: widest_def)
  have s: "str_nat 11 = ''11''"
    by (simp add: str_nat.simps[of 11] str_nat.simps[of "Suc 0"] digit_char_def)
  show ?thesis
    using v f column_mismatch_raises[OF v v ne w, of empty_system]
    by (simp add: widest_def s empty_system_def date_max_def mk_date_def)
qed

lemma download_files:
  "files (snd (download_data w self symbol timeframe s e st)) =
     (case fst (download_data w self symbol timeframe s e st) of
        Inr (Some df) \<Rightarrow> (files st)(output_path self symbol timeframe s e \<mapsto> to_csv w df)
      | Inr None \<Rightarrow> files st
      | Inl x \<Rightarrow> files st)"
proof (cases "day_loop w self symbol timeframe s e [] st")
  case (Pair r st1)
  have st1: "files st1 = files st"
    using day_loop_files[of w self symbol timeframe s e "[]" st] Pair by simp
  show ?thesis
  proof (cases r)
    case (Inl x)
    then show ?thesis using Pair st1 by (simp add: download_data_def)
  next
    case (Inr all_data)
    then show ?thesis
      using Pair finish_files[of w self symbol timeframe s e all_data st1] st1
      by (simp add: download_data_def split: sum.splits option.splits)
  qed
qed

lemma download_fst_indep:
  "fst (download_data w self symbol timeframe s e st) =
   fst (download_data w self symbol timeframe s e st2)"
proof (cases "day_loop w self symbol timeframe s e [] st")
  case (Pair r st1)
  obtain r2 st3 where p2: "day_loop w self symbol timeframe s e [] st2 = (r2, st3)"
    by (cases "day_loop w self symbol timeframe s e [] st2")
  have r: "r2 = r"
    using day_loop_fst_indep[of w self symbol timeframe s e "[]" st st2] Pair p2 by simp
  show ?thesis
  proof (cases r)
    case (Inl x)
    then show ?thesis using Pair p2 r by (simp add: download_data_def)
  next
    case (Inr all_data)
    then show ?thesis
      using Pair p2 r finish_fst_indep[of w self symbol timeframe s e all_data st1 st3]
      by (simp add: download_data_def)
  qed
qed

subsection \<open>Calling twice\<close>

text \<open>
  C8. With the same arguments and the same remote source, a second call made after a first
  one returns what the first returned and leaves the files exactly as the first call left
  them: the output file it writes is identical to the one already there.
\<close>

theorem download_twice:
  "fst (download_data w self symbol timeframe start_date end_date
          (snd (download_data w self symbol timeframe start_date end_date st))) =
     fst (download_data w self symbol timeframe start_date end_date st) \<and>
   files (snd (download_data w self symbol timeframe start_date end_date
          (snd (download_data w self symbol timeframe start_date end_date st)))) =
     files (snd (download_data w self symbol timeframe start_date end_date st))"
proof -
  let ?r1 = "download_data w self symbol timeframe start_date end_date st"
  let ?r2 = "download_data w self symbol timeframe start_date end_date (snd ?r1)"
  have same: "fst ?r2 = fst ?r1"
    by (rule download_fst_indep)
  have "files (snd ?r2) = files (snd ?r1)"
    unfolding download_files[of w self symbol timeframe start_date end_date "snd ?r1"] same
    unfolding download_files[of w self symbol timeframe start_date end_date st]
    by (simp split: sum.splits option.splits)
  with same show ?thesis by blast
qed

lemma loop_body_raised:
  "fetch_day w (get_url self timeframe symbol d) = Inl x \<Longrightarrow>
   loop_body w self symbol timeframe d all_data st =
     (all_data, st\<lparr>get_calls := get_calls st @ [get_url self timeframe symbol d],
                    stdout := stdout st @ [error_msg d x]\<rparr>)"
  by (simp add: loop_body_def)

lemma loop_body_no_data:
  "fetch_day w (get_url self timeframe symbol d) = Inr None \<Longrightarrow>
   loop_body w self symbol timeframe d all_data st =
     (all_data, st\<lparr>get_calls := get_calls st @ [get_url self timeframe symbol d],
                    stdout := stdout st @ [no_data_msg d]\<rparr>)"
  by (simp add: loop_body_def)

lemma fetch_day_transport:
  "requests_get w url = Inl x \<Longrightarrow> fetch_day w url = Inl x"
  by (simp add: fetch_day_def)

lemma fetch_day_status:
  "requests_get w url = Inr r \<Longrightarrow> status_code r \<noteq> 200 \<Longrightarrow> fetch_day w url = Inr None"
  by (simp add: fetch_day_def)

lemma fetch_day_archive:
  "requests_get w url = Inr r \<Longrightarrow> status_code r = 200 \<Longrightarrow> ZipFile w (content r) = Inl x \<Longrightarrow>
   fetch_day w url = Inl x"
  by (simp add: fetch_day_def)

lemma fetch_day_member:
  "requests_get w url = Inr r \<Longrightarrow> status_code r = 200 \<Longrightarrow> ZipFile w (content r) = Inr zf \<Longrightarrow>
   namelist zf = [] \<Longrightarrow> fetch_day w url = Inl IndexError"
  by (simp add: fetch_day_def)

lemma fetch_day_open:
  "requests_get w url = Inr r \<Longrightarrow> status_code r = 200 \<Longrightarrow> ZipFile w (content r) = Inr zf \<Longrightarrow>
   namelist zf = name # names \<Longrightarrow> zip_open zf name = Inl x \<Longrightarrow> fetch_day w url = Inl x"
  by (simp add: fetch_day_def)

lemma fetch_day_parse:
  "requests_get w url = Inr r \<Longrightarrow> status_code r = 200 \<Longrightarrow> ZipFile w (content r) = Inr zf \<Longrightarrow>
   namelist zf = name # names \<Longrightarrow> zip_open zf name = Inr csv_file \<Longrightarrow>
   read_csv w csv_file = Inl x \<Longrightarrow> fetch_day w url = Inl x"
  by (simp add: fetch_day_def)

lemma day_loop_raises_only_overflow:
  assumes "valid_date s" "valid_date e"
    and "fst (day_loop w self symbol timeframe s e all_data st) = Inl x"
  shows "x = OverflowError \<and> e = date_max"
  using assms(3) unfolding day_loop_range[OF assms(1,2)]
  by (simp split: if_splits)

lemma day_loop_trace:
  assumes "valid_date s" "valid_date e"
  shows "get_calls (snd (day_loop w self symbol timeframe s e all_data st)) =
           get_calls st @ map (get_url self timeframe symbol) (date_range s e)"
    and "stdout (snd (day_loop w self symbol timeframe s e all_data st)) =
           stdout st @ List.map_filter (day_log w self symbol timeframe) (date_range s e)"
  unfolding day_loop_range[OF assms(1,2)] by simp_all

subsection \<open>A day that fails\<close>

text \<open>
  C3. In one iteration, an exception raised by the request, by opening the archive, by
  taking its first member (\<^verbatim>\<open>IndexError\<close> on an empty archive), by opening the member or by
  parsing it is the outcome \<open>Inl x\<close> of the \<^verbatim>\<open>try\<close> block; a status other than 200 is
  the outcome \<open>Inr None\<close>. In both cases the iteration ends normally: the accumulator is
  as before and one line is printed (the error line with \<^verbatim>\<open>str(e)\<close>, or the no-data line).
  For valid dates the loop requests every day of the range whatever the days do, and the
  only exception that leaves it is the \<^verbatim>\<open>OverflowError\<close> of the date increment at a range
  ending at \<^verbatim>\<open>date.max\<close>.
\<close>

theorem day_failures_are_skipped:
  "(\<forall>x. fetch_day w (get_url self timeframe symbol d) = Inl x \<longrightarrow>
      loop_body w self symbol timeframe d all_data st =
        (all_data, st\<lparr>get_calls := get_calls st @ [get_url self timeframe symbol d],
                       stdout := stdout st @ [error_msg d x]\<rparr>)) \<and>
   (fetch_day w (get_url self timeframe symbol d) = Inr None \<longrightarrow>
      loop_body w self symbol timeframe d all_data st =
        (all_data, st\<lparr>get_calls := get_calls st @ [get_url self timeframe symbol d],
                       stdout := stdout st @ [no_data_msg d]\<rparr>)) \<and>
   (\<forall>x. requests_get w url = Inl x \<longrightarrow> fetch_day w url = Inl x) \<and>
   (\<forall>r. requests_get w url = Inr r \<and> status_code r \<noteq> 200 \<longrightarrow> fetch_day w url = Inr None) \<and>
   (\<forall>r x. requests_get w url = Inr r \<and> status_code r = 200 \<and> ZipFile w (content r) = Inl x \<longrightarrow>
      fetch_day w url = Inl x) \<and>
   (\<forall>r zf. requests_get w url = Inr r \<and> status_code r = 200 \<and> ZipFile w (content r) = Inr zf \<and>
      namelist zf = [] \<longrightarrow> fetch_day w url = Inl IndexError) \<and>
   (\<forall>r zf name names x. requests_get w url = Inr r \<and> status_code r = 200 \<and>
      ZipFile w (content r) = Inr zf \<and> namelist zf = name # names \<and> zip_open zf name = Inl x \<longrightarrow>
      fetch_day w url = Inl x) \<and>
   (\<forall>r zf name names csv_file x. requests_get w url = Inr r \<and> status_code r = 200 \<and>
      ZipFile w (content r) = Inr zf \<and> namelist zf = name # names \<and>
      zip_open zf name = Inr csv_file \<and> read_csv w csv_file = Inl x \<longrightarrow>
      fetch_day w url = Inl x) \<and>
   (valid_date start_date \<and> valid_date end_date \<longrightarrow>
      get_calls (snd (day_loop w self symbol timeframe start_date end_date all_data st)) =
        get_calls st @ map (get_url self timeframe symbol) (date_range start_date end_date) \<and>
      stdout (snd (day_loop w self symbol timeframe start_date end_date all_data st)) =
        stdout st @ List.map_filter (day_log w self symbol timeframe)
                      (date_range start_date end_date) \<and>
      (\<forall>x. fst (day_loop w self symbol timeframe start_date end_date all_data st) = Inl x \<longrightarrow>
         x = OverflowError \<and> end_date = date_max))"
proof (intro conjI allI impI)
  fix x
  assume "fetch_day w (get_url self timeframe symbol d) = Inl x"
  then show "loop_body w self symbol timeframe d all_data st =
        (all_data, st\<lparr>get_calls := get_calls st @ [get_url self timeframe symbol d],
                       stdout := stdout st @ [error_msg d x]\<rparr>)"
    by (rule loop_body_raised)
next
  assume "fetch_day w (get_url self timeframe symbol d) = Inr None"
  then show "loop_body w self symbol timeframe d all_data st =
        (all_data, st\<lparr>get_calls := get_calls st @ [get_url self timeframe symbol d],
                       stdout := stdout st @ [no_data_msg d]\<rparr>)"
    by (rule loop_body_no_data)
next
  fix x
  assume "requests_get w url = Inl x"
  then show "fetch_day w url = Inl x"
    by (rule fetch_day_transport)
next
  fix r
  assume "requests_get w url = Inr r \<and> status_code r \<noteq> 200"
  then show "fetch_day w url = Inr None"
    using fetch_day_status by blast
next
  fix r x
  assume "requests_get w url = Inr r \<and> status_code r = 200 \<and> ZipFile w (content r) = Inl x"
  then show "fetch_day w url = Inl x"
    using fetch_day_archive by blast
next
  fix r zf
  assume "requests_get w url = Inr r \<and> status_code r = 200 \<and> ZipFile w (content r) = Inr zf \<and>
      namelist zf = []"
  then show "fetch_day w url = Inl IndexError"
    using fetch_day_member by blast
next
  fix r zf name names x
  assume "requests_get w url = Inr r \<and> status_code r = 200 \<and>
      ZipFile w (content r) = Inr zf \<and> namelist zf = name # names \<and> zip_open zf name = Inl x"
  then show "fetch_day w url = Inl x"
    using fetch_day_open by blast
next
  fix r zf name names csv_file x
  assume "requests_get w url = Inr r \<and> status_code r = 200 \<and>
      ZipFile w (content r) = Inr zf \<and> namelist zf = name # names \<and>
      zip_open zf name = Inr csv_file \<and> read_csv w csv_file = Inl x"
  then show "fetch_day w url = Inl x"
    using fetch_day_parse by blast
next
  assume v: "valid_date start_date \<and> valid_date end_date"
  show "get_calls (snd (day_loop w self symbol timeframe start_date end_date all_data st)) =
        get_calls st @ map (get_url self timeframe symbol) (date_range start_date end_date)"
    using v by (intro day_loop_trace(1)) simp_all
next
  assume v: "valid_date start_date \<and> valid_date end_date"
  show "stdout (snd (day_loop w self symbol timeframe start_date end_date all_data st)) =
        stdout st @ List.map_filter (day_log w self symbol timeframe)
                      (date_range start_date end_date)"
    using v by (intro day_loop_trace(2)) simp_all
next
  fix x
  assume v: "valid_date start_date \<and> valid_date end_date"
    and r: "fst (day_loop w self symbol timeframe start_date end_date all_data st) = Inl x"
  show "x = OverflowError"
    using day_loop_raises_only_overflow[OF _ _ r] v by blast
next
  fix x
  assume v: "valid_date start_date \<and> valid_date end_date"
    and r: "fst (day_loop w self symbol timeframe start_date end_date all_data st) = Inl x"
  show "end_date = date_max"
    using day_loop_raises_only_overflow[OF _ _ r] v by blast
qed

theorem day_failures_are_skipped_witness:
  "requests_get demo_world (demo_url 4) = Inl (PyExc ''ConnectionError'' ''connection refused'') \<and>
   loop_body demo_world (init ''data'') ''BTCUSDT'' ''1h'' (mk_date 2024 1 4) [] empty_system =
     ([], empty_system\<lparr>get_calls := [demo_url 4],
            stdout := [''Error downloading data for 2024-01-04: connection refused - Time to blame the internet'']\<rparr>) \<and>
   valid_date (mk_date 2024 1 1) \<and> valid_date (mk_date 2024 1 5) \<and>
   get_calls (snd (day_loop demo_world (init ''data'') ''BTCUSDT'' ''1h''
                     (mk_date 2024 1 1) (mk_date 2024 1 5) [] empty_system)) =
     [demo_url 1, demo_url 2, demo_url 3, demo_url 4, demo_url 5] \<and>
   stdout (snd (day_loop demo_world (init ''data'') ''BTCUSDT'' ''1h''
                     (mk_date 2024 1 1) (mk_date 2024 1 5) [] empty_system)) =
     [''No data available for 2024-01-02 - Binance is probably having a coffee break'',
      ''Error downloading data for 2024-01-04: connection refused - Time to blame the internet'',
      ''Error downloading data for 2024-01-05: File is not a zip file - Time to blame the internet'']"
proof -
  note T = day_failures_are_skipped[where w = demo_world and self = "init ''data''"
      and symbol = "''BTCUSDT''" and timeframe = "''1h''" and d = "mk_date 2024 1 4"
      and url = "demo_url 4" and all_data = "[]" and st = empty_system
      and start_date = "mk_date 2024 1 1" and end_date = "mk_date 2024 1 5"]
  have u: "get_url (init ''data'') ''1h'' ''BTCUSDT'' (mk_date 2024 1 4) = demo_url 4"
    by (simp add: demo_url_def)
  have t: "requests_get demo_world (demo_url 4) =
      Inl (PyExc ''ConnectionError'' ''connection refused'')"
    by (simp add: demo_eval text_eval mk_date_def)
  have f: "fetch_day demo_world (demo_url 4) = Inl (PyExc ''ConnectionError'' ''connection refused'')"
    using T t by blast
  have m: "error_msg (mk_date 2024 1 4) (PyExc ''ConnectionError'' ''connection refused'') =
      ''Error downloading data for 2024-01-04: connection refused - Time to blame the internet''"
    by (simp add: text_eval mk_date_def)
  have b: "loop_body demo_world (init ''data'') ''BTCUSDT'' ''1h'' (mk_date 2024 1 4) [] empty_system =
     ([], empty_system\<lparr>get_calls := get_calls empty_system @ [demo_url 4],
            stdout := stdout empty_system @
              [error_msg (mk_date 2024 1 4) (PyExc ''ConnectionError'' ''connection refused'')]\<rparr>)"
    using T f unfolding u by blast
  have v: "valid_date (mk_date 2024 1 1) \<and> valid_date (mk_date 2024 1 5)"
    by (simp add: date_eval)
  have r: "date_range (mk_date 2024 1 1) (mk_date 2024 1 5) =
      [mk_date 2024 1 1, mk_date 2024 1 2, mk_date 2024 1 3, mk_date 2024 1 4, mk_date 2024 1 5]"
    by (simp add: date_eval eval_nat_numeral)
  have l: "List.map_filter (day_log demo_world (init ''data'') ''BTCUSDT'' ''1h'')
      [mk_date 2024 1 1, mk_date 2024 1 2, mk_date 2024 1 3, mk_date 2024 1 4, mk_date 2024 1 5] =
     [''No data available for 2024-01-02 - Binance is probably having a coffee break'',
      ''Error downloading data for 2024-01-04: connection refused - Time to blame the internet'',
      ''Error downloading data for 2024-01-05: File is not a zip file - Time to blame the internet'']"
    by (simp add: List.map_filter_def demo_eval text_eval mk_date_def)
  have c: "get_calls (snd (day_loop demo_world (init ''data'') ''BTCUSDT'' ''1h''
                     (mk_date 2024 1 1) (mk_date 2024 1 5) [] empty_system)) =
      get_calls empty_system @ map (get_url (init ''data'') ''1h'' ''BTCUSDT'')
        (date_range (mk_date 2024 1 1) (mk_date 2024 1 5))"
    using T v by blast
  have s: "stdout (snd (day_loop demo_world (init ''data'') ''BTCUSDT'' ''1h''
                     (mk_date 2024 1 1) (mk_date 2024 1 5) [] empty_system)) =
      stdout empty_system @ List.map_filter (day_log demo_world (init ''data'') ''BTCUSDT'' ''1h'')
        (date_range (mk_date 2024 1 1) (mk_date 2024 1 5))"
    using T v by blast
  have e: "get_calls empty_system = []" "stdout empty_system = []"
    by (simp_all add: empty_system_def)
  show ?thesis
    using t b v c s unfolding r l m e
    by (simp add: demo_url_def)
qed

subsection \<open>The table a call returns\<close>

lemma pad_row_wide: "n \<le> length r \<Longrightarrow> pad_row n r = r"
  by (simp add: pad_row_def)

lemma stacked_wide:
  "list_all (\<lambda>f. list_all (\<lambda>r. n \<le> length r) (rows f)) dfs \<Longrightarrow>
   stacked n dfs = concat (map rows dfs)"
proof (induction dfs)
  case Nil
  then show ?case by (simp add: stacked_def)
next
  case (Cons f dfs)
  then have "map (pad_row n) (rows f) = rows f"
    by (simp add: list_all_iff pad_row_wide map_idI)
  then show ?case
    using Cons by (simp add: stacked_def)
qed

lemma combined_rows_nth:
  assumes "i < length (stacked (widest dfs) dfs)" "j < widest dfs"
  shows "combined_rows w dfs ! i ! j =
     concat_cast w (column_at j (stacked (widest dfs) dfs)) (cell_at j (stacked (widest dfs) dfs ! i))"
  unfolding combined_rows_def using assms by (rule cast_rows_nth)

lemma cast_rows_unchanged:
  assumes "\<forall>r \<in> set R. length r = n"
    and "\<forall>j < n. \<forall>c \<in> set (column_at j R). concat_cast w (column_at j R) c = c"
  shows "cast_rows w n R = R"
proof -
  have "map (\<lambda>j. concat_cast w (column_at j R) (cell_at j r)) [0..<n] = r" if r: "r \<in> set R" for r
  proof -
    have len: "length r = n" using assms(1) r by simp
    have "concat_cast w (column_at j R) (cell_at j r) = r ! j" if j: "j < n" for j
    proof -
      have "cell_at j r \<in> set (column_at j R)"
        using r by (simp add: column_at_def)
      then have "concat_cast w (column_at j R) (cell_at j r) = cell_at j r"
        using assms(2) j by blast
      then show ?thesis
        using j len by (simp add: cell_at_def)
    qed
    then have "map (\<lambda>j. concat_cast w (column_at j R) (cell_at j r)) [0..<n] = map ((!) r) [0..<n]"
      by simp
    also have "map ((!) r) [0..<n] = r"
      unfolding len[symmetric] by (rule map_nth)
    finally show ?thesis .
  qed
  then show ?thesis
    by (simp add: cast_rows_def map_idI)
qed

lemma download_returns:
  assumes "valid_date s" "valid_date e"
    and "download_data w self symbol timeframe s e st = (Inr r, st')"
  shows "finish w self symbol timeframe s e (day_frames w self symbol timeframe s e)
        (st\<lparr>get_calls := get_calls st @ map (get_url self timeframe symbol) (date_range s e),
           stdout := stdout st @ List.map_filter (day_log w self symbol timeframe) (date_range s e)\<rparr>)
      = (Inr r, st')"
proof (cases "date_le s e \<and> e = date_max")
  case True
  have "fst (download_data w self symbol timeframe s e st) = Inl OverflowError"
    unfolding download_overflow[OF assms(1,2) conjunct1[OF True] conjunct2[OF True]] by simp
  then show ?thesis using assms(3) by simp
next
  case False
  then show ?thesis
    using download_finish[OF assms(1,2) False, of w self symbol timeframe st] assms(3) by simp
qed

lemma finish_returns_table:
  assumes "all_data \<noteq> []"
    and "finish w self symbol timeframe s e all_data st = (Inr r, st')"
  shows "widest all_data = 12 \<and>
    write_error w (output_path self symbol timeframe s e) = None \<and>
    (\<exists>dts. to_datetime_series w (column_at 0 (combined_rows w all_data)) = Inr dts \<and>
       r = Some \<lparr>index = NamedIndex ''timestamp'' dts, columns = tl COLUMN_NAMES,
                 data = map tl (combined_rows w all_data)\<rparr> \<and>
       files st' = (files st)(output_path self symbol timeframe s e \<mapsto>
          to_csv w \<lparr>index = NamedIndex ''timestamp'' dts, columns = tl COLUMN_NAMES,
                 data = map tl (combined_rows w all_data)\<rparr>))"
proof (cases rule: finish_cases[of all_data w self symbol timeframe s e st])
  case empty
  then show ?thesis using assms(1) by simp
next
  case (mismatch x)
  then show ?thesis using assms(2) by simp
next
  case (convert x)
  then show ?thesis using assms(2) by simp
next
  case (unwritten dts x)
  then show ?thesis using assms(2) by simp
next
  case (table dts)
  then show ?thesis using assms(2) by auto
qed

lemmas frame_eval = download_data_def day_loop.simps finish_def
  pd_concat_def combined_rows_def cast_rows_def column_at_def widest_def stacked_def pad_row_def
  set_columns_def COLUMN_NAMES_def getitem_def setitem_def set_index_def cell_at_def
  remove_nth_def to_datetime_def Let_def upt_rec nth_append

lemmas path_eval = output_path_def path_div_def path_root_def path_components_def Path_def
  path_str_def demo_write_error_def saved_msg_def

lemmas pandas_eval = demo_cast_def demo_float_def demo_format_def demo_instant_def
  to_csv_def index_label_def index_fields_def row_fields_def

lemma demo_three_days:
  "download_data demo_world (init ''data'') ''BTCUSDT'' ''1h''
          (mk_date 2024 1 1) (mk_date 2024 1 3) empty_system =
     (Inr (Some \<lparr>index = NamedIndex ''timestamp''
                          [Timestamp 1704067200000000000, Timestamp 1704240000000000000],
                columns = [''open'', ''high'', ''low'', ''close'', ''volume'', ''close_time'',
                           ''quote_volume'', ''trades'', ''taker_buy_base'', ''taker_buy_quote'',
                           ''ignore''],
                data = [[Integer 1, Integer 1, Integer 1, Integer 1, Integer 1, Integer 1,
                         Integer 1, Integer 1, Integer 1, Integer 1, Integer 1],
                        [Integer 1, Integer 1, Integer 1, Integer 1, Integer 1, Integer 1,
                         Integer 1, Integer 1, Integer 1, Integer 1, Integer 1]]\<rparr>),
      \<lparr>files = [\<lparr>root = [], parts = [''data'', ''BTCUSDT_1h_2024-01-01_2024-01-03.csv'']\<rparr> \<mapsto>
          [[''timestamp'', ''open'', ''high'', ''low'', ''close'', ''volume'', ''close_time'',
            ''quote_volume'', ''trades'', ''taker_buy_base'', ''taker_buy_quote'', ''ignore''],
           [''2024-01-01'', ''1'', ''1'', ''1'', ''1'', ''1'', ''1'', ''1'', ''1'', ''1'', ''1'', ''1''],
           [''2024-01-03'', ''1'', ''1'', ''1'', ''1'', ''1'', ''1'', ''1'', ''1'', ''1'', ''1'', ''1'']]],
       stdout = [''No data available for 2024-01-02 - Binance is probably having a coffee break'',
                 ''Data saved to data/BTCUSDT_1h_2024-01-01_2024-01-03.csv - Your hard drive is now slightly more valuable''],
       get_calls = [''https://data.binance.vision/data/spot/daily/klines/BTCUSDT/1h/BTCUSDT-1h-2024-01-01.zip'',
                    ''https://data.binance.vision/data/spot/daily/klines/BTCUSDT/1h/BTCUSDT-1h-2024-01-02.zip'',
                    ''https://data.binance.vision/data/spot/daily/klines/BTCUSDT/1h/BTCUSDT-1h-2024-01-03.zip'']\<rparr>)"
  by (simp add: frame_eval date_eval demo_eval text_eval path_eval pandas_eval)

lemma demo_three_days_frames:
  "day_frames demo_world (init ''data'') ''BTCUSDT'' ''1h'' (mk_date 2024 1 1) (mk_date 2024 1 3) =
     [\<lparr>ncols = 12, rows = [Integer 1704067200000 # replicate 11 (Integer 1)]\<rparr>,
      \<lparr>ncols = 12, rows = [Integer 1704240000000 # replicate 11 (Integer 1)]\<rparr>]"
proof -
  have r: "date_range (mk_date 2024 1 1) (mk_date 2024 1 3) =
      [mk_date 2024 1 1, mk_date 2024 1 2, mk_date 2024 1 3]"
    by (simp add: date_eval eval_nat_numeral)
  show ?thesis
    unfolding day_frames_def r
    by (simp add: List.map_filter_def demo_eval text_eval mk_date_def)
qed

lemma demo_mixed_days:
  "fst (download_data demo_world (init ''data'') ''BTCUSDT'' ''1h''
          (mk_date 2024 1 10) (mk_date 2024 1 11) empty_system) =
     Inr (Some \<lparr>index = NamedIndex ''timestamp''
                          [Timestamp 1704844800000000000, Timestamp 1704931200000000000],
                columns = [''open'', ''high'', ''low'', ''close'', ''volume'', ''close_time'',
                           ''quote_volume'', ''trades'', ''taker_buy_base'', ''taker_buy_quote'',
                           ''ignore''],
                data = [[Integer 1, Integer 1, Integer 1, Integer 1, Integer 1, Integer 1,
                         Integer 1, Integer 1, Integer 1, Integer 1,
                         Other ''9007199254740992.0''],
                        [Integer 1, Integer 1, Integer 1, Integer 1, Integer 1, Integer 1,
                         Integer 1, Integer 1, Integer 1, Integer 1, Other ''0.5'']]\<rparr>)"
  by (simp add: frame_eval date_eval demo_eval text_eval path_eval pandas_eval)

lemma demo_mixed_frames:
  "day_frames demo_world (init ''data'') ''BTCUSDT'' ''1h'' (mk_date 2024 1 10) (mk_date 2024 1 11) =
     [\<lparr>ncols = 12, rows = [Integer 1704844800000 # replicate 10 (Integer 1) @
                                            [Integer 9007199254740993]]\<rparr>,
      \<lparr>ncols = 12, rows = [Integer 1704931200000 # replicate 10 (Integer 1) @
                                            [Other ''0.5'']]\<rparr>]"
proof -
  have r: "date_range (mk_date 2024 1 10) (mk_date 2024 1 11) =
      [mk_date 2024 1 10, mk_date 2024 1 11]"
    by (simp add: date_eval eval_nat_numeral)
  show ?thesis
    unfolding day_frames_def r
    by (simp add: List.map_filter_def demo_eval text_eval mk_date_def)
qed

subsection \<open>The rows of the returned table\<close>

text \<open>
  C1, amended. For valid dates, when at least one day yields a frame and the call returns,
  it returns a table with one row for each row of the successful days' frames, in day
  order and in their order within each day, none dropped and none merged: the row count is
  the sum of the frames' row counts, and row \<open>i\<close> of the table comes from row \<open>i\<close> of the
  stacked frames (each row filled with \<^verbatim>\<open>NaN\<close> up to 12 entries, which changes nothing
  when it has 12). The entries are those of that row after \<^verbatim>\<open>pd.concat\<close> has cast each
  column to one dtype, the first of them converted and moved to the index. They are the
  day's own entries when every row has 12 entries and the cast changes no entry of any
  column; a column that mixes integers and decimals is cast to floats, and the table then
  differs from the concatenation of the per-day rows (the example of 2024-01-10 and
  2024-01-11 below).
\<close>

theorem returned_rows_in_day_order:
  assumes "valid_date start_date" "valid_date end_date"
    and "day_frames w self symbol timeframe start_date end_date \<noteq> []"
    and "download_data w self symbol timeframe start_date end_date st = (Inr r, st')"
  shows "\<exists>df. r = Some df \<and>
           length (data df) =
             sum_list (map (\<lambda>f. length (rows f))
                         (day_frames w self symbol timeframe start_date end_date)) \<and>
           length (index_values df) =
             sum_list (map (\<lambda>f. length (rows f))
                         (day_frames w self symbol timeframe start_date end_date)) \<and>
           data df =
             map tl (combined_rows w (day_frames w self symbol timeframe start_date end_date)) \<and>
           to_datetime_series w
             (column_at 0 (combined_rows w (day_frames w self symbol timeframe start_date end_date))) =
             Inr (index_values df) \<and>
           length (combined_rows w (day_frames w self symbol timeframe start_date end_date)) =
             length (stacked 12 (day_frames w self symbol timeframe start_date end_date)) \<and>
           (\<forall>i j. i < length (stacked 12 (day_frames w self symbol timeframe start_date end_date)) \<and>
                  j < 12 \<longrightarrow>
              combined_rows w (day_frames w self symbol timeframe start_date end_date) ! i ! j =
                concat_cast w
                  (column_at j (stacked 12 (day_frames w self symbol timeframe start_date end_date)))
                  (cell_at j (stacked 12 (day_frames w self symbol timeframe start_date end_date) ! i))) \<and>
           (list_all (\<lambda>f. list_all (\<lambda>r. 12 \<le> length r) (rows f))
              (day_frames w self symbol timeframe start_date end_date) \<longrightarrow>
            stacked 12 (day_frames w self symbol timeframe start_date end_date) =
              concat (map rows (day_frames w self symbol timeframe start_date end_date))) \<and>
           (list_all (\<lambda>f. list_all (\<lambda>r. length r = 12) (rows f))
              (day_frames w self symbol timeframe start_date end_date) \<and>
            (\<forall>j < 12. list_all (\<lambda>c. concat_cast w
                 (column_at j (concat (map rows (day_frames w self symbol timeframe start_date end_date)))) c = c)
               (column_at j (concat (map rows (day_frames w self symbol timeframe start_date end_date))))) \<longrightarrow>
            data df =
              map tl (concat (map rows (day_frames w self symbol timeframe start_date end_date))))"
proof -
  let ?F = "day_frames w self symbol timeframe start_date end_date"
  obtain dts where wd: "widest ?F = 12"
    and dts: "to_datetime_series w (column_at 0 (combined_rows w ?F)) = Inr dts"
    and r: "r = Some \<lparr>index = NamedIndex ''timestamp'' dts, columns = tl COLUMN_NAMES,
                 data = map tl (combined_rows w ?F)\<rparr>"
    using finish_returns_table[OF assms(3) download_returns[OF assms(1,2,4)]] by blast
  let ?df = "\<lparr>index = NamedIndex ''timestamp'' dts, columns = tl COLUMN_NAMES,
                 data = map tl (combined_rows w ?F)\<rparr>"
  have len: "length dts = length (combined_rows w ?F)"
    using to_datetime_series_length[OF dts] by (simp add: column_at_def)
  have a: "length (data ?df) = sum_list (map (\<lambda>f. length (rows f)) ?F)"
    by (simp add: length_combined_rows)
  have b: "length (index_values ?df) = sum_list (map (\<lambda>f. length (rows f)) ?F)"
    using len by (simp add: index_values_def length_combined_rows)
  have c: "data ?df = map tl (combined_rows w ?F)"
    by simp
  have d: "to_datetime_series w (column_at 0 (combined_rows w ?F)) = Inr (index_values ?df)"
    using dts by (simp add: index_values_def)
  have e: "length (combined_rows w ?F) = length (stacked 12 ?F)"
    by (simp add: length_combined_rows length_stacked)
  have f: "\<forall>i j. i < length (stacked 12 ?F) \<and> j < 12 \<longrightarrow>
              combined_rows w ?F ! i ! j =
                concat_cast w (column_at j (stacked 12 ?F)) (cell_at j (stacked 12 ?F ! i))"
    using combined_rows_nth[of _ ?F _ w] unfolding wd by blast
  have g: "list_all (\<lambda>f. list_all (\<lambda>r. 12 \<le> length r) (rows f)) ?F \<longrightarrow>
            stacked 12 ?F = concat (map rows ?F)"
    using stacked_wide[of 12 ?F] by blast
  have h: "list_all (\<lambda>f. list_all (\<lambda>r. length r = 12) (rows f)) ?F \<and>
            (\<forall>j < 12. list_all (\<lambda>c. concat_cast w (column_at j (concat (map rows ?F))) c = c)
               (column_at j (concat (map rows ?F)))) \<longrightarrow>
            data ?df = map tl (concat (map rows ?F))"
  proof (intro impI, elim conjE)
    assume w12: "list_all (\<lambda>f. list_all (\<lambda>r. length r = 12) (rows f)) ?F"
      and same: "\<forall>j < 12. list_all (\<lambda>c. concat_cast w (column_at j (concat (map rows ?F))) c = c)
               (column_at j (concat (map rows ?F)))"
    have "list_all (\<lambda>f. list_all (\<lambda>r. 12 \<le> length r) (rows f)) ?F"
      using w12 by (simp add: list_all_iff)
    then have st: "stacked 12 ?F = concat (map rows ?F)"
      by (rule stacked_wide)
    have rl: "\<forall>r \<in> set (concat (map rows ?F)). length r = 12"
      using w12 by (auto simp: list_all_iff)
    have sm: "\<forall>j < 12. \<forall>c \<in> set (column_at j (concat (map rows ?F))).
        concat_cast w (column_at j (concat (map rows ?F))) c = c"
      using same by (simp add: list_all_iff)
    have "combined_rows w ?F = concat (map rows ?F)"
      unfolding combined_rows_def wd st by (rule cast_rows_unchanged[OF rl sm])
    then show "data ?df = map tl (concat (map rows ?F))"
      by simp
  qed
  show ?thesis
    unfolding r using a b c d e f g h by blast
qed

theorem returned_rows_in_day_order_witness:
  "valid_date (mk_date 2024 1 1) \<and> valid_date (mk_date 2024 1 3) \<and>
   day_frames demo_world (init ''data'') ''BTCUSDT'' ''1h'' (mk_date 2024 1 1) (mk_date 2024 1 3) =
     [\<lparr>ncols = 12, rows = [Integer 1704067200000 # replicate 11 (Integer 1)]\<rparr>,
      \<lparr>ncols = 12, rows = [Integer 1704240000000 # replicate 11 (Integer 1)]\<rparr>] \<and>
   (\<exists>df. fst (download_data demo_world (init ''data'') ''BTCUSDT'' ''1h''
                (mk_date 2024 1 1) (mk_date 2024 1 3) empty_system) = Inr (Some df) \<and>
         data df = [replicate 11 (Integer 1), replicate 11 (Integer 1)] \<and>
         index_values df = [Timestamp 1704067200000000000, Timestamp 1704240000000000000] \<and>
         length (data df) = 2)"
proof -
  let ?F = "day_frames demo_world (init ''data'') ''BTCUSDT'' ''1h''
      (mk_date 2024 1 1) (mk_date 2024 1 3)"
  let ?D = "download_data demo_world (init ''data'') ''BTCUSDT'' ''1h''
      (mk_date 2024 1 1) (mk_date 2024 1 3) empty_system"
  have v: "valid_date (mk_date 2024 1 1)" "valid_date (mk_date 2024 1 3)"
    by (simp_all add: date_eval)
  have ne: "?F \<noteq> []"
    unfolding demo_three_days_frames by simp
  obtain T where d: "?D = (Inr (Some T), snd ?D)"
    using demo_three_days by (simp add: prod_eq_iff)
  obtain df where df: "Some T = Some df"
      "length (data df) = sum_list (map (\<lambda>f. length (rows f)) ?F)"
      "data df = map tl (combined_rows demo_world ?F)"
      "to_datetime_series demo_world (column_at 0 (combined_rows demo_world ?F)) =
         Inr (index_values df)"
    using returned_rows_in_day_order[OF v ne d] by blast
  have cr: "combined_rows demo_world ?F =
      [Integer 1704067200000 # replicate 11 (Integer 1),
       Integer 1704240000000 # replicate 11 (Integer 1)]"
    unfolding demo_three_days_frames
    by (simp add: combined_rows_def cast_rows_def widest_def stacked_def pad_row_def
        column_at_def cell_at_def demo_world_def demo_cast_def upt_rec eval_nat_numeral)
  have "fst ?D = Inr (Some df)"
    using d df(1) by (simp add: prod_eq_iff)
  moreover have "data df = [replicate 11 (Integer 1), replicate 11 (Integer 1)]"
    using df(3) unfolding cr by simp
  moreover have "index_values df = [Timestamp 1704067200000000000, Timestamp 1704240000000000000]"
    using df(4) unfolding cr by (simp add: column_at_def cell_at_def to_datetime_def)
  moreover have "length (data df) = 2"
    using df(2) unfolding demo_three_days_frames by simp
  ultimately show ?thesis
    using v demo_three_days_frames by blast
qed

text \<open>
  The table returned for 2024-01-10 to 2024-01-11: the last column holds the integer
  \<open>2\<^sup>5\<^sup>3 + 1\<close> on the first day and the decimal 0.5 on the second, so \<^verbatim>\<open>pd.concat\<close> casts
  it to floats and the first row of the table is not the first day's row.
\<close>

theorem returned_rows_are_cast:
  "day_frames demo_world (init ''data'') ''BTCUSDT'' ''1h'' (mk_date 2024 1 10) (mk_date 2024 1 11) =
     [\<lparr>ncols = 12, rows = [Integer 1704844800000 # replicate 10 (Integer 1) @
                                            [Integer 9007199254740993]]\<rparr>,
      \<lparr>ncols = 12, rows = [Integer 1704931200000 # replicate 10 (Integer 1) @
                                            [Other ''0.5'']]\<rparr>] \<and>
   fst (download_data demo_world (init ''data'') ''BTCUSDT'' ''1h''
          (mk_date 2024 1 10) (mk_date 2024 1 11) empty_system) =
     Inr (Some \<lparr>index = NamedIndex ''timestamp''
                          [Timestamp 1704844800000000000, Timestamp 1704931200000000000],
                columns = [''open'', ''high'', ''low'', ''close'', ''volume'', ''close_time'',
                           ''quote_volume'', ''trades'', ''taker_buy_base'', ''taker_buy_quote'',
                           ''ignore''],
                data = [[Integer 1, Integer 1, Integer 1, Integer 1, Integer 1, Integer 1,
                         Integer 1, Integer 1, Integer 1, Integer 1,
                         Other ''9007199254740992.0''],
                        [Integer 1, Integer 1, Integer 1, Integer 1, Integer 1, Integer 1,
                         Integer 1, Integer 1, Integer 1, Integer 1, Other ''0.5'']]\<rparr>) \<and>
   [[Integer 1, Integer 1, Integer 1, Integer 1, Integer 1, Integer 1,
     Integer 1, Integer 1, Integer 1, Integer 1, Other ''9007199254740992.0''],
    [Integer 1, Integer 1, Integer 1, Integer 1, Integer 1, Integer 1,
     Integer 1, Integer 1, Integer 1, Integer 1, Other ''0.5'']] \<noteq>
   map tl (concat (map rows
     (day_frames demo_world (init ''data'') ''BTCUSDT'' ''1h'' (mk_date 2024 1 10) (mk_date 2024 1 11))))"
proof -
  have "[[Integer 1, Integer 1, Integer 1, Integer 1, Integer 1, Integer 1,
     Integer 1, Integer 1, Integer 1, Integer 1, Other ''9007199254740992.0''],
    [Integer 1, Integer 1, Integer 1, Integer 1, Integer 1, Integer 1,
     Integer 1, Integer 1, Integer 1, Integer 1, Other ''0.5'']] \<noteq>
   map tl (concat (map rows
     (day_frames demo_world (init ''data'') ''BTCUSDT'' ''1h'' (mk_date 2024 1 10) (mk_date 2024 1 11))))"
    unfolding demo_mixed_frames by (simp add: eval_nat_numeral)
  then show ?thesis
    using demo_mixed_frames demo_mixed_days by blast
qed

subsection \<open>The columns, the index and the file\<close>

lemma to_csv_named:
  "to_csv w \<lparr>index = NamedIndex name dts, columns = cols, data = R\<rparr> =
     (name # cols) #
     map2 (\<lambda>t r. format_index w dts t #
                  row_fields w \<lparr>index = NamedIndex name dts, columns = cols, data = R\<rparr> r) dts R"
  by (auto simp: to_csv_def index_label_def index_fields_def zip_map1)

lemma length_row_fields: "length (row_fields w df r) = length (columns df)"
  by (simp add: row_fields_def)

lemma map2_lengths:
  assumes "\<And>t r. length (f t r) = n"
  shows "list_all (\<lambda>rec. length rec = n) (map2 f dts R)"
  using assms by (auto simp: list_all_iff)

text \<open>
  C5. For valid dates, a returned table has the 11 columns open, high, low, close, volume,
  close_time, quote_volume, trades, taker_buy_base, taker_buy_quote, ignore, in this order.
  Its index is named timestamp and holds the first column of the combined frames converted
  by \<^verbatim>\<open>pd.to_datetime(_, unit='ms')\<close>: an entry that is the integer \<open>ms\<close> (within the
  range of 64-bit nanoseconds) has become the instant \<open>ms\<close> milliseconds after the epoch,
  held as \<open>ms * 1000000\<close> nanoseconds, and a missing entry has become \<^verbatim>\<open>NaT\<close>. That column
  is no longer among the data: every data row is the combined row without its first entry,
  11 entries. The file at the output path is the CSV text of the table: a header of
  timestamp and the 11 names, then for each row the text of the index entry followed by
  the texts of the row's 11 entries, 12 fields in every record. This holds whatever the
  days of the range answered.
\<close>

theorem returned_table_schema:
  assumes "valid_date start_date" "valid_date end_date"
    and "download_data w self symbol timeframe start_date end_date st = (Inr (Some df), st')"
  shows "columns df =
           [''open'', ''high'', ''low'', ''close'', ''volume'', ''close_time'', ''quote_volume'',
            ''trades'', ''taker_buy_base'', ''taker_buy_quote'', ''ignore''] \<and>
         index df = NamedIndex ''timestamp'' (index_values df) \<and>
         to_datetime_series w
           (column_at 0 (combined_rows w (day_frames w self symbol timeframe start_date end_date))) =
           Inr (index_values df) \<and>
         length (index_values df) =
           length (column_at 0 (combined_rows w (day_frames w self symbol timeframe start_date end_date))) \<and>
         (\<forall>i ms. i < length (index_values df) \<and>
                 column_at 0 (combined_rows w (day_frames w self symbol timeframe start_date end_date)) ! i =
                   Integer ms \<and>
                 - 9223372036854 \<le> ms \<and> ms \<le> 9223372036854 \<longrightarrow>
            index_values df ! i = Timestamp (ms * 1000000)) \<and>
         (\<forall>i. i < length (index_values df) \<and>
              column_at 0 (combined_rows w (day_frames w self symbol timeframe start_date end_date)) ! i =
                NaN \<longrightarrow>
            index_values df ! i = NaT) \<and>
         data df =
           map tl (combined_rows w (day_frames w self symbol timeframe start_date end_date)) \<and>
         list_all (\<lambda>r. length r = 11) (data df) \<and>
         length (index_values df) = length (data df) \<and>
         files st' (output_path self symbol timeframe start_date end_date) = Some (to_csv w df) \<and>
         to_csv w df =
           (''timestamp'' # columns df) #
           map2 (\<lambda>t r. format_index w (index_values df) t # row_fields w df r)
             (index_values df) (data df) \<and>
         list_all (\<lambda>rec. length rec = 12) (to_csv w df)"
proof -
  let ?F = "day_frames w self symbol timeframe start_date end_date"
  let ?C = "combined_rows w ?F"
  note fin = download_returns[OF assms(1,2,3)]
  have ne: "?F \<noteq> []"
  proof
    assume "?F = []"
    then show False using fin by (simp add: finish_empty)
  qed
  obtain dts where wd: "widest ?F = 12"
    and dts: "to_datetime_series w (column_at 0 ?C) = Inr dts"
    and df': "Some df = Some \<lparr>index = NamedIndex ''timestamp'' dts, columns = tl COLUMN_NAMES,
                 data = map tl ?C\<rparr>"
    and fs: "files st' = (files
        (st\<lparr>get_calls := get_calls st @ map (get_url self timeframe symbol)
                (date_range start_date end_date),
            stdout := stdout st @ List.map_filter (day_log w self symbol timeframe)
                (date_range start_date end_date)\<rparr>))
        (output_path self symbol timeframe start_date end_date \<mapsto>
          to_csv w \<lparr>index = NamedIndex ''timestamp'' dts, columns = tl COLUMN_NAMES,
                 data = map tl ?C\<rparr>)"
    using finish_returns_table[OF ne fin] by blast
  have df: "df = \<lparr>index = NamedIndex ''timestamp'' dts, columns = tl COLUMN_NAMES,
                 data = map tl ?C\<rparr>"
    using df' by simp
  have a: "columns df = tl COLUMN_NAMES" "index df = NamedIndex ''timestamp'' dts"
    "index_values df = dts" "data df = map tl ?C"
    unfolding df by (simp_all add: index_values_def)
  have len: "length dts = length (column_at 0 ?C)"
    by (rule to_datetime_series_length[OF dts])
  have conv: "to_datetime w (column_at 0 ?C ! i) = Inr (dts ! i)" if "i < length dts" for i
    using to_datetime_series_nth[OF dts, of i] that len by simp
  have c1: "columns df =
           [''open'', ''high'', ''low'', ''close'', ''volume'', ''close_time'', ''quote_volume'',
            ''trades'', ''taker_buy_base'', ''taker_buy_quote'', ''ignore'']"
    unfolding a(1) by (rule tl_COLUMN_NAMES)
  have c2: "index df = NamedIndex ''timestamp'' (index_values df)"
    unfolding a(2,3) by (rule refl)
  have c3: "to_datetime_series w (column_at 0 ?C) = Inr (index_values df)"
    unfolding a(3) by (rule dts)
  have c4: "length (index_values df) = length (column_at 0 ?C)"
    unfolding a(3) by (rule len)
  have c5: "\<forall>i ms. i < length (index_values df) \<and> column_at 0 ?C ! i = Integer ms \<and>
                 - 9223372036854 \<le> ms \<and> ms \<le> 9223372036854 \<longrightarrow>
            index_values df ! i = Timestamp (ms * 1000000)"
  proof (intro allI impI, elim conjE)
    fix i ms
    assume i: "i < length (index_values df)" and c: "column_at 0 ?C ! i = Integer ms"
      and lo: "- 9223372036854 \<le> ms" and hi: "ms \<le> 9223372036854"
    have "to_datetime w (Integer ms) = Inr (dts ! i)"
      using conv[of i] i c unfolding a(3) by simp
    then show "index_values df ! i = Timestamp (ms * 1000000)"
      using lo hi unfolding a(3) by (simp add: to_datetime_def)
  qed
  have c6: "\<forall>i. i < length (index_values df) \<and> column_at 0 ?C ! i = NaN \<longrightarrow>
            index_values df ! i = NaT"
  proof (intro allI impI, elim conjE)
    fix i
    assume i: "i < length (index_values df)" and c: "column_at 0 ?C ! i = NaN"
    have "to_datetime w NaN = Inr (dts ! i)"
      using conv[of i] i c unfolding a(3) by simp
    then show "index_values df ! i = NaT"
      unfolding a(3) by (simp add: to_datetime_def)
  qed
  have "\<forall>r \<in> set ?C. length r = 12"
    using combined_rows_width[of _ w ?F] unfolding wd by blast
  then have c8: "list_all (\<lambda>r. length r = 11) (data df)"
    unfolding a(4) by (simp add: list_all_iff)
  have c9: "length (index_values df) = length (data df)"
    unfolding a(3,4) using len by (simp add: column_at_def)
  have c10: "files st' (output_path self symbol timeframe start_date end_date) = Some (to_csv w df)"
    unfolding fs df by simp
  have c11: "to_csv w df =
           (''timestamp'' # columns df) #
           map2 (\<lambda>t r. format_index w (index_values df) t # row_fields w df r)
             (index_values df) (data df)"
    unfolding a(3) unfolding a(1,4) unfolding df by (rule to_csv_named)
  have "list_all (\<lambda>rec. length rec = 12)
      (map2 (\<lambda>t r. format_index w (index_values df) t # row_fields w df r)
             (index_values df) (data df))"
    by (rule map2_lengths) (simp add: length_row_fields c1)
  then have c12: "list_all (\<lambda>rec. length rec = 12) (to_csv w df)"
    unfolding c11 by (simp add: c1)
  show ?thesis
    using c1 c2 c3 c4 c5 c6 a(4) c8 c9 c10 c11 c12 by blast
qed

theorem returned_table_schema_witness:
  "valid_date (mk_date 2024 1 1) \<and> valid_date (mk_date 2024 1 3) \<and>
   fst (download_data demo_world (init ''data'') ''BTCUSDT'' ''1h''
          (mk_date 2024 1 1) (mk_date 2024 1 3) empty_system) =
     Inr (Some \<lparr>index = NamedIndex ''timestamp''
                          [Timestamp 1704067200000000000, Timestamp 1704240000000000000],
                columns = [''open'', ''high'', ''low'', ''close'', ''volume'', ''close_time'',
                           ''quote_volume'', ''trades'', ''taker_buy_base'', ''taker_buy_quote'',
                           ''ignore''],
                data = [[Integer 1, Integer 1, Integer 1, Integer 1, Integer 1, Integer 1,
                         Integer 1, Integer 1, Integer 1, Integer 1, Integer 1],
                        [Integer 1, Integer 1, Integer 1, Integer 1, Integer 1, Integer 1,
                         Integer 1, Integer 1, Integer 1, Integer 1, Integer 1]]\<rparr>) \<and>
   column_at 0 (combined_rows demo_world
     (day_frames demo_world (init ''data'') ''BTCUSDT'' ''1h'' (mk_date 2024 1 1) (mk_date 2024 1 3))) =
     [Integer 1704067200000, Integer 1704240000000] \<and>
   files (snd (download_data demo_world (init ''data'') ''BTCUSDT'' ''1h''
                 (mk_date 2024 1 1) (mk_date 2024 1 3) empty_system))
     \<lparr>root = [], parts = [''data'', ''BTCUSDT_1h_2024-01-01_2024-01-03.csv'']\<rparr> =
     Some [[''timestamp'', ''open'', ''high'', ''low'', ''close'', ''volume'', ''close_time'',
            ''quote_volume'', ''trades'', ''taker_buy_base'', ''taker_buy_quote'', ''ignore''],
           [''2024-01-01'', ''1'', ''1'', ''1'', ''1'', ''1'', ''1'', ''1'', ''1'', ''1'', ''1'', ''1''],
           [''2024-01-03'', ''1'', ''1'', ''1'', ''1'', ''1'', ''1'', ''1'', ''1'', ''1'', ''1'', ''1'']]"
proof -
  let ?F = "day_frames demo_world (init ''data'') ''BTCUSDT'' ''1h''
      (mk_date 2024 1 1) (mk_date 2024 1 3)"
  let ?D = "download_data demo_world (init ''data'') ''BTCUSDT'' ''1h''
      (mk_date 2024 1 1) (mk_date 2024 1 3) empty_system"
  let ?T = "\<lparr>index = NamedIndex ''timestamp''
                          [Timestamp 1704067200000000000, Timestamp 1704240000000000000],
                columns = [''open'', ''high'', ''low'', ''close'', ''volume'', ''close_time'',
                           ''quote_volume'', ''trades'', ''taker_buy_base'', ''taker_buy_quote'',
                           ''ignore''],
                data = [[Integer 1, Integer 1, Integer 1, Integer 1, Integer 1, Integer 1,
                         Integer 1, Integer 1, Integer 1, Integer 1, Integer 1],
                        [Integer 1, Integer 1, Integer 1, Integer 1, Integer 1, Integer 1,
                         Integer 1, Integer 1, Integer 1, Integer 1, Integer 1 :: string cell]]\<rparr>"
  have v: "valid_date (mk_date 2024 1 1)" "valid_date (mk_date 2024 1 3)"
    by (simp_all add: date_eval)
  have d: "?D = (Inr (Some ?T), snd ?D)"
    using demo_three_days by (simp add: prod_eq_iff)
  note s = returned_table_schema[OF v d]
  have col: "column_at 0 (combined_rows demo_world ?F) =
      [Integer 1704067200000, Integer 1704240000000]"
    unfolding demo_three_days_frames
    by (simp add: combined_rows_def cast_rows_def widest_def stacked_def pad_row_def
        column_at_def cell_at_def demo_world_def demo_cast_def upt_rec)
  have "index_values ?T ! 0 = Timestamp (1704067200000 * 1000000)"
    using s col by (simp add: index_values_def)
  have f: "files (snd ?D) (output_path (init ''data'') ''BTCUSDT'' ''1h''
            (mk_date 2024 1 1) (mk_date 2024 1 3)) = Some (to_csv demo_world ?T)"
    using s by blast
  have p: "output_path (init ''data'') ''BTCUSDT'' ''1h'' (mk_date 2024 1 1) (mk_date 2024 1 3) =
      \<lparr>root = [], parts = [''data'', ''BTCUSDT_1h_2024-01-01_2024-01-03.csv'']\<rparr>"
    by (simp add: path_eval text_eval mk_date_def)
  have t: "to_csv demo_world ?T =
      [[''timestamp'', ''open'', ''high'', ''low'', ''close'', ''volume'', ''close_time'',
            ''quote_volume'', ''trades'', ''taker_buy_base'', ''taker_buy_quote'', ''ignore''],
           [''2024-01-01'', ''1'', ''1'', ''1'', ''1'', ''1'', ''1'', ''1'', ''1'', ''1'', ''1'', ''1''],
           [''2024-01-03'', ''1'', ''1'', ''1'', ''1'', ''1'', ''1'', ''1'', ''1'', ''1'', ''1'', ''1'']]"
    by (simp add: pandas_eval demo_world_def column_at_def cell_at_def text_eval upt_rec)
  have "fst ?D = Inr (Some ?T)"
    using d by (simp add: prod_eq_iff)
  then show ?thesis
    using v col f p t by simp
qed

subsection \<open>The output file\<close>

lemma split_on_no_sep: "sep \<notin> set s \<Longrightarrow> split_on sep s = [s]"
  by (induction s) auto

lemma digit_char_not_slash: "digit_char n \<noteq> CHR ''/''"
proof -
  have "n mod 10 < length ''0123456789''" by simp
  then have "''0123456789'' ! (n mod 10) \<in> set ''0123456789''"
    by (rule nth_mem)
  then show ?thesis
    unfolding digit_char_def by auto
qed

lemma str_nat_no_slash: "CHR ''/'' \<notin> set (str_nat n)"
proof (induction n rule: str_nat.induct)
  case (1 n)
  show ?case
  proof (cases "n < 10")
    case True
    then show ?thesis
      using digit_char_not_slash[of n] by (simp add: str_nat.simps[of n])
  next
    case False
    then show ?thesis
      using 1 digit_char_not_slash[of "n mod 10"] by (simp add: str_nat.simps[of n])
  qed
qed

lemma fmt_0d_no_slash: "CHR ''/'' \<notin> set (fmt_0d k n)"
  using str_nat_no_slash by (simp add: fmt_0d_def zfill_def)

lemma isoformat_no_slash: "CHR ''/'' \<notin> set (isoformat d)"
  using fmt_0d_no_slash by (simp add: isoformat_def)

lemma path_root_plain: "CHR ''/'' \<notin> set s \<Longrightarrow> path_root s = []"
  by (cases s) (auto simp: path_root_def)

lemma path_components_plain:
  assumes "CHR ''/'' \<notin> set s" "2 \<le> length s"
  shows "path_components s = [s]"
proof -
  have "s \<noteq> []" "s \<noteq> ''.''"
    using assms(2) by auto
  then show ?thesis
    using assms(1) by (simp add: path_components_def split_on_no_sep)
qed

text \<open>
  With no slash in the symbol and in the timeframe, the output path is the base path with
  one more component, the file name.
\<close>

lemma output_path_plain:
  assumes "CHR ''/'' \<notin> set symbol" "CHR ''/'' \<notin> set timeframe"
  shows "output_path self symbol timeframe s e =
     \<lparr>root = root (base_path self),
      parts = parts (base_path self) @
        [symbol @ ''_'' @ timeframe @ ''_'' @ isoformat s @ ''_'' @ isoformat e @ ''.csv'']\<rparr>"
proof -
  let ?N = "symbol @ ''_'' @ timeframe @ ''_'' @ isoformat s @ ''_'' @ isoformat e @ ''.csv''"
  have n: "CHR ''/'' \<notin> set ?N"
    using assms isoformat_no_slash by simp
  have l: "2 \<le> length ?N"
    by simp
  show ?thesis
    unfolding output_path_def path_div_def
    by (simp only: path_root_plain[OF n] path_components_plain[OF n l] simp_thms if_False)
qed

text \<open>
  C7. The file is written at \<^verbatim>\<open>self.base_path / f"{symbol}_{timeframe}_{start_date}_{end_date}.csv"\<close>,
  the dates in ISO form. For a symbol that begins with a slash this is not a path under
  \<^verbatim>\<open>base_path\<close>: the right operand of \<^verbatim>\<open>/\<close> is absolute and \<^verbatim>\<open>pathlib\<close> drops the
  left one. With the base path \<^verbatim>\<open>data\<close>, the symbol \<^verbatim>\<open>/tmp/x\<close> and a source that has
  data for it on 2024-01-01, the call writes \<^verbatim>\<open>/tmp/x_1h_2024-01-01_2024-01-01.csv\<close> and
  nothing under \<^verbatim>\<open>data\<close>.
\<close>

theorem output_file_outside_base_path:
  "base_path (init ''data'') = \<lparr>root = [], parts = [''data'']\<rparr> \<and>
   output_path (init ''data'') ''/tmp/x'' ''1h'' (mk_date 2024 1 1) (mk_date 2024 1 1) =
     \<lparr>root = ''/'', parts = [''tmp'', ''x_1h_2024-01-01_2024-01-01.csv'']\<rparr> \<and>
   download_data demo_world (init ''data'') ''/tmp/x'' ''1h''
       (mk_date 2024 1 1) (mk_date 2024 1 1) empty_system =
     (Inr (Some \<lparr>index = NamedIndex ''timestamp'' [Timestamp 1704067200000000000],
                 columns = [''open'', ''high'', ''low'', ''close'', ''volume'', ''close_time'',
                            ''quote_volume'', ''trades'', ''taker_buy_base'', ''taker_buy_quote'',
                            ''ignore''],
                 data = [[Integer 1, Integer 1, Integer 1, Integer 1, Integer 1, Integer 1,
                          Integer 1, Integer 1, Integer 1, Integer 1, Integer 1]]\<rparr>),
      \<lparr>files = [\<lparr>root = ''/'', parts = [''tmp'', ''x_1h_2024-01-01_2024-01-01.csv'']\<rparr> \<mapsto>
          [[''timestamp'', ''open'', ''high'', ''low'', ''close'', ''volume'', ''close_time'',
            ''quote_volume'', ''trades'', ''taker_buy_base'', ''taker_buy_quote'', ''ignore''],
           [''2024-01-01'', ''1'', ''1'', ''1'', ''1'', ''1'', ''1'', ''1'', ''1'', ''1'', ''1'', ''1'']]],
       stdout = [''Data saved to /tmp/x_1h_2024-01-01_2024-01-01.csv - Your hard drive is now slightly more valuable''],
       get_calls = [''https://data.binance.vision/data/spot/daily/klines//tmp/x/1h//tmp/x-1h-2024-01-01.zip'']\<rparr>)"
proof -
  have a: "base_path (init ''data'') = \<lparr>root = [], parts = [''data'']\<rparr>"
    by (simp add: init_def path_eval)
  have b: "output_path (init ''data'') ''/tmp/x'' ''1h'' (mk_date 2024 1 1) (mk_date 2024 1 1) =
     \<lparr>root = ''/'', parts = [''tmp'', ''x_1h_2024-01-01_2024-01-01.csv'']\<rparr>"
    by (simp add: path_eval text_eval mk_date_def)
  have c: "download_data demo_world (init ''data'') ''/tmp/x'' ''1h''
       (mk_date 2024 1 1) (mk_date 2024 1 1) empty_system =
     (Inr (Some \<lparr>index = NamedIndex ''timestamp'' [Timestamp 1704067200000000000],
                 columns = [''open'', ''high'', ''low'', ''close'', ''volume'', ''close_time'',
                            ''quote_volume'', ''trades'', ''taker_buy_base'', ''taker_buy_quote'',
                            ''ignore''],
                 data = [[Integer 1, Integer 1, Integer 1, Integer 1, Integer 1, Integer 1,
                          Integer 1, Integer 1, Integer 1, Integer 1, Integer 1]]\<rparr>),
      \<lparr>files = [\<lparr>root = ''/'', parts = [''tmp'', ''x_1h_2024-01-01_2024-01-01.csv'']\<rparr> \<mapsto>
          [[''timestamp'', ''open'', ''high'', ''low'', ''close'', ''volume'', ''close_time'',
            ''quote_volume'', ''trades'', ''taker_buy_base'', ''taker_buy_quote'', ''ignore''],
           [''2024-01-01'', ''1'', ''1'', ''1'', ''1'', ''1'', ''1'', ''1'', ''1'', ''1'', ''1'', ''1'']]],
       stdout = [''Data saved to /tmp/x_1h_2024-01-01_2024-01-01.csv - Your hard drive is now slightly more valuable''],
       get_calls = [''https://data.binance.vision/data/spot/daily/klines//tmp/x/1h//tmp/x-1h-2024-01-01.zip'']\<rparr>)"
    by (simp add: frame_eval date_eval demo_eval text_eval path_eval pandas_eval)
  show ?thesis
    using a b c by (intro conjI)
qed

end
